theory Spec2Isabelle
  imports Main
begin

section \<open>JavaScript primitives\<close>

text \<open>
  The plugin is TypeScript. A JavaScript number is modelled as an \<open>int\<close>: the model is
  that of the code on integral numbers inside the safe range (magnitude at most \<open>2^53 - 1\<close>),
  where \<open>String\<close>, \<open>toString(radix)\<close>, \<open>+\<close> and \<open>-\<close> are exact. A JavaScript string is
  a \<open>string\<close>; one \<open>char\<close> stands for one UTF-16 code unit below 256. An exception is a
  value \<open>Inl e\<close> of a sum type; \<open>undefined\<close> is \<open>None\<close>; \<open>NaN\<close> is \<open>None\<close> where a number is
  expected.
\<close>

text \<open>
  \<open>OutsideModel\<close> is not a JavaScript exception: it marks the few inputs on which this
  development does not follow the code (a separator text holding a backslash or a closing
  bracket, whose regular expression is not a plain character class), so that no statement
  is made about them.
\<close>

datatype js_error = RangeError | SyntaxError | TypeError | OutsideModel

definition MAX_SAFE_INTEGER :: int where
  "MAX_SAFE_INTEGER = 2 ^ 53 - 1"

definition DIGITS :: string where
  "DIGITS = ''0123456789abcdefghijklmnopqrstuvwxyz''"

text \<open>The digits of a natural number in radix \<open>b\<close> (2 to 36), most significant first.\<close>

function digitsRadix :: "nat \<Rightarrow> nat \<Rightarrow> string" where
  "digitsRadix b n =
     (if b < 2 \<or> n < b then [DIGITS ! n]
      else digitsRadix b (n div b) @ [DIGITS ! (n mod b)])"
  by pat_completeness auto
termination
  by (relation "measure snd") auto

declare digitsRadix.simps [simp del]

text \<open>\<^verbatim>\<open>Number.prototype.toString(radix)\<close> on an integer; \<^verbatim>\<open>String(num)\<close> is radix 10.\<close>

definition numberToString :: "nat \<Rightarrow> int \<Rightarrow> string" where
  "numberToString radix m =
     (if m < 0 then CHR ''-'' # digitsRadix radix (nat (- m)) else digitsRadix radix (nat m))"

definition String :: "int \<Rightarrow> string" where
  "String num = numberToString 10 num"

text \<open>The value of one digit character, in either case, if it is one.\<close>

definition digitValue :: "char \<Rightarrow> nat option" where
  "digitValue c =
     (let k = (of_char c :: nat) in
      if 48 \<le> k \<and> k \<le> 57 then Some (k - 48)
      else if 97 \<le> k \<and> k \<le> 122 then Some (k - 87)
      else if 65 \<le> k \<and> k \<le> 90 then Some (k - 55)
      else None)"

text \<open>
  \<^verbatim>\<open>parseInt(str, radix)\<close> on a string of one character: the digit's value when the
  character is a digit of that radix, \<open>NaN\<close> otherwise (a lone sign or blank has no digits).
\<close>

definition parseIntChar :: "nat \<Rightarrow> char \<Rightarrow> nat option" where
  "parseIntChar radix c =
     (case digitValue c of
        None \<Rightarrow> None
      | Some d \<Rightarrow> if d < radix then Some d else None)"

text \<open>\<^verbatim>\<open>toLowerCase\<close>; the strings it is applied to here are ASCII.\<close>

definition lowerChar :: "char \<Rightarrow> char" where
  "lowerChar c =
     (let k = (of_char c :: nat) in if 65 \<le> k \<and> k \<le> 90 then char_of (k + 32) else c)"

definition toLowerCase :: "string \<Rightarrow> string" where
  "toLowerCase s = map lowerChar s"

text \<open>
  Unary \<^verbatim>\<open>+\<close> on what \<^verbatim>\<open>digits.pop()\<close> gives: \<open>undefined\<close> is \<open>NaN\<close>, a digit is its value,
  a white space character is 0 and any other single character is \<open>NaN\<close>. The white
  space of \<^verbatim>\<open>\s\<close>, of \<^verbatim>\<open>trim\<close> and of number conversion is the same set; below 256 it is
  the code units 9 to 13, 32 and 160.
\<close>

definition isWhiteSpace :: "char \<Rightarrow> bool" where
  "isWhiteSpace c = ((of_char c :: nat) \<in> {9, 10, 11, 12, 13, 32, 160})"

definition toNumberPopped :: "char option \<Rightarrow> nat option" where
  "toNumberPopped p =
     (case p of
        None \<Rightarrow> None
      | Some c \<Rightarrow>
          if isWhiteSpace c then Some 0
          else (case digitValue c of
                  None \<Rightarrow> None
                | Some d \<Rightarrow> if d < 10 then Some d else None))"

text \<open>The value of a string of decimal digits, \<open>NaN\<close> when it is empty or has another character.\<close>

fun decimalValue :: "nat \<Rightarrow> string \<Rightarrow> nat option" where
  "decimalValue acc [] = Some acc"
| "decimalValue acc (c # cs) =
     (case parseIntChar 10 c of
        None \<Rightarrow> None
      | Some d \<Rightarrow> decimalValue (10 * acc + d) cs)"

text \<open>
  Unary \<^verbatim>\<open>+\<close> on a string made of decimal digits and signs, which is all that is left of
  \<^verbatim>\<open>String(num)\<close>: the empty string is 0, an optional sign followed by at least one digit is
  that number, anything else is \<open>NaN\<close>.
\<close>

definition toNumberString :: "string \<Rightarrow> int option" where
  "toNumberString s =
     (case s of
        [] \<Rightarrow> Some 0
      | c # cs \<Rightarrow>
          if c = CHR ''-'' then
            (if cs = [] then None else map_option (\<lambda>v. - int v) (decimalValue 0 cs))
          else if c = CHR ''+'' then
            (if cs = [] then None else map_option int (decimalValue 0 cs))
          else map_option int (decimalValue 0 s))"

text \<open>
  \<^verbatim>\<open>Array(len).join(sep)\<close>: \<^verbatim>\<open>Array(len)\<close> throws a \<open>RangeError\<close> unless \<open>len\<close> is an
  integer from 0 to \<open>2^32 - 1\<close> (so also for \<open>NaN\<close>); joining \<open>len\<close> empty slots gives
  \<open>len - 1\<close> separators.
\<close>

definition arrayJoin :: "int option \<Rightarrow> string \<Rightarrow> js_error + string" where
  "arrayJoin len sep =
     (case len of
        None \<Rightarrow> Inl RangeError
      | Some k \<Rightarrow>
          if k < 0 \<or> 4294967295 < k then Inl RangeError
          else Inr (concat (replicate (nat k - 1) sep)))"

section \<open>Numeral formatters\<close>

definition ROMAN :: "string list" where
  "ROMAN = ['''', ''C'', ''CC'', ''CCC'', ''CD'', ''D'', ''DC'', ''DCC'', ''DCCC'', ''CM'',
            '''', ''X'', ''XX'', ''XXX'', ''XL'', ''L'', ''LX'', ''LXX'', ''LXXX'', ''XC'',
            '''', ''I'', ''II'', ''III'', ''IV'', ''V'', ''VI'', ''VII'', ''VIII'', ''IX'']"

text \<open>\<^verbatim>\<open>ROMAN[+digits.pop() + (i * 10)] ?? ""\<close>: a \<open>NaN\<close> or out-of-range index reads \<open>undefined\<close>.\<close>

definition romanEntry :: "char option \<Rightarrow> nat \<Rightarrow> string" where
  "romanEntry popped i =
     (case toNumberPopped popped of
        None \<Rightarrow> []
      | Some d \<Rightarrow> if d + i * 10 < length ROMAN then ROMAN ! (d + i * 10) else [])"

definition pop :: "string \<Rightarrow> char option" where
  "pop digits = (if digits = [] then None else Some (last digits))"

text \<open>
  The loop \<^verbatim>\<open>let i = 3; while (i--) { ... }\<close>: the body runs with \<open>i\<close> = 2, 1, 0. The state is
  the remaining digits and the numeral built so far.
\<close>

fun romanLoop :: "nat \<Rightarrow> string \<Rightarrow> string \<Rightarrow> string \<times> string" where
  "romanLoop 0 digits roman = (digits, roman)"
| "romanLoop (Suc i) digits roman =
     romanLoop i (butlast digits) (romanEntry (pop digits) i @ roman)"

definition toRomanUpper :: "int \<Rightarrow> js_error + string" where
  "toRomanUpper num =
     (let (digits, roman) = romanLoop 3 (String num) [] in
      case arrayJoin (map_option (\<lambda>t. t + 1) (toNumberString digits)) ''M'' of
        Inl e \<Rightarrow> Inl e
      | Inr ms \<Rightarrow> Inr (ms @ roman))"

definition toRomanLower :: "int \<Rightarrow> js_error + string" where
  "toRomanLower num = map_sum id toLowerCase (toRomanUpper num)"

definition ALPH :: string where
  "ALPH = ''ABCDEFGHIJKLMNOPQRSTUVWXYZ''"

text \<open>
  \<^verbatim>\<open>str => ALPH[parseInt(str, 26)]\<close> followed by \<^verbatim>\<open>join("")\<close>: a \<open>NaN\<close> index reads
  \<open>undefined\<close>, which \<open>join\<close> writes as the empty string.
\<close>

definition alphEntry :: "char \<Rightarrow> string" where
  "alphEntry str =
     (case parseIntChar 26 str of
        None \<Rightarrow> []
      | Some k \<Rightarrow> if k < length ALPH then [ALPH ! k] else [])"

definition toAlphUpper :: "int \<Rightarrow> string" where
  "toAlphUpper num = concat (map alphEntry (numberToString 26 (num - 1)))"

definition toAlphLower :: "int \<Rightarrow> string" where
  "toAlphLower num = toLowerCase (toAlphUpper num)"

datatype NumberStyle = arabic | alph | Alph | roman | Roman

fun CONVERTER :: "NumberStyle \<Rightarrow> int \<Rightarrow> js_error + string" where
  "CONVERTER arabic num = Inr (String num)"
| "CONVERTER alph num = Inr (toAlphLower num)"
| "CONVERTER Alph num = Inr (toAlphUpper num)"
| "CONVERTER roman num = toRomanLower num"
| "CONVERTER Roman num = toRomanUpper num"

section \<open>Prefix inference\<close>

subsection \<open>The regular expressions of \<^verbatim>\<open>isValidLabel\<close>\<close>

text \<open>
  A small backtracking matcher for the star-free patterns of the source. \<open>remainders\<close>
  lists, in the order a backtracking engine tries them, what is left of the input after
  each way of matching the pattern at its start. A pattern anchored by \<^verbatim>\<open>^\<close> and \<^verbatim>\<open>$\<close>
  matches when some way leaves nothing.
\<close>

datatype re = Lit string | Alt re re | Cat re re | Opt re

text \<open>
  The flag \<^verbatim>\<open>i\<close> compares upper-cased code units. Only the ASCII letters are upper-cased
  here: the literals of the patterns are ASCII, and JavaScript never identifies a code unit
  of 128 or more with an ASCII one.
\<close>

definition upperChar :: "char \<Rightarrow> char" where
  "upperChar c =
     (let k = (of_char c :: nat) in if 97 \<le> k \<and> k \<le> 122 then char_of (k - 32) else c)"

definition sameText :: "bool \<Rightarrow> string \<Rightarrow> string \<Rightarrow> bool" where
  "sameText ignoreCase u w = (if ignoreCase then map upperChar u = map upperChar w else u = w)"

fun remainders :: "bool \<Rightarrow> re \<Rightarrow> string \<Rightarrow> string list" where
  "remainders ic (Lit w) s =
     (if length w \<le> length s \<and> sameText ic (take (length w) s) w then [drop (length w) s]
      else [])"
| "remainders ic (Alt a b) s = remainders ic a s @ remainders ic b s"
| "remainders ic (Cat a b) s = concat (map (remainders ic b) (remainders ic a s))"
| "remainders ic (Opt a) s = remainders ic a s @ [s]"

definition matchesWhole :: "bool \<Rightarrow> re \<Rightarrow> string \<Rightarrow> bool" where
  "matchesWhole ic r s = ([] \<in> set (remainders ic r s))"

text \<open>The bounded repetition \<^verbatim>\<open>r{0,n}\<close>, greedy.\<close>

primrec upTo :: "nat \<Rightarrow> re \<Rightarrow> re" where
  "upTo 0 r = Lit []"
| "upTo (Suc n) r = Opt (Cat r (upTo n r))"

text \<open>\<^verbatim>\<open>/^M{0,4}(CM|CD|D?C{0,3})(XC|XL|L?X{0,3})(IX|IV|V?I{0,3})$/i\<close>\<close>

definition romanGroup :: "string \<Rightarrow> string \<Rightarrow> string \<Rightarrow> re" where
  "romanGroup ten five one =
     Alt (Lit (one @ ten)) (Alt (Lit (one @ five)) (Cat (Opt (Lit five)) (upTo 3 (Lit one))))"

definition ROMAN_PATTERN :: re where
  "ROMAN_PATTERN =
     Cat (upTo 4 (Lit ''M''))
       (Cat (romanGroup ''M'' ''D'' ''C'')
         (Cat (romanGroup ''C'' ''L'' ''X'') (romanGroup ''X'' ''V'' ''I'')))"

definition isDigitChar :: "char \<Rightarrow> bool" where
  "isDigitChar c = (48 \<le> (of_char c :: nat) \<and> (of_char c :: nat) \<le> 57)"

definition isLetterChar :: "char \<Rightarrow> bool" where
  "isLetterChar c =
     (let k = (of_char (upperChar c) :: nat) in 65 \<le> k \<and> k \<le> 90)"

text \<open>
  \<^verbatim>\<open>isValidLabel\<close>: \<^verbatim>\<open>/^[0-9]+$/\<close>, then the Roman pattern, then \<^verbatim>\<open>/^[a-z]$/i\<close>.
\<close>

definition isValidLabel :: "string \<Rightarrow> bool" where
  "isValidLabel label =
     (if label \<noteq> [] \<and> list_all isDigitChar label then True
      else if matchesWhole True ROMAN_PATTERN label then True
      else if length label = 1 \<and> isLetterChar (label ! 0) then True
      else False)"

text \<open>A label is blank (falsy) exactly when it is the empty string.\<close>

definition areValidLabels :: "string list \<Rightarrow> bool" where
  "areValidLabels labels =
     (let blankRemoved = filter (\<lambda>label. label \<noteq> []) labels in
      if 2 \<le> length blankRemoved then list_all isValidLabel blankRemoved
      else if length blankRemoved = 1 then length labels = 2 \<and> isValidLabel (labels ! 0)
      else False)"

subsection \<open>The separator class and \<^verbatim>\<open>split\<close>\<close>

text \<open>
  \<^verbatim>\<open>new RegExp(`[${parseSep}]`)\<close>. Inside the brackets a leading \<^verbatim>\<open>^\<close> negates, and three
  code units \<^verbatim>\<open>a-b\<close> are a range, a \<open>SyntaxError\<close> when it is out of order; a \<^verbatim>\<open>-\<close> that
  does not stand between two others is itself. A backslash or a closing bracket would end
  or escape the class: such a separator text is outside this model.
\<close>

fun classRanges :: "string \<Rightarrow> js_error + (nat \<times> nat) list" where
  "classRanges (a # m # b # rest) =
     (if m = CHR ''-'' then
        (if (of_char b :: nat) < of_char a then Inl SyntaxError
         else (case classRanges rest of
                 Inl e \<Rightarrow> Inl e
               | Inr rs \<Rightarrow> Inr ((of_char a, of_char b) # rs)))
      else (case classRanges (m # b # rest) of
              Inl e \<Rightarrow> Inl e
            | Inr rs \<Rightarrow> Inr ((of_char a, of_char a) # rs)))"
| "classRanges (a # rest) =
     (case classRanges rest of
        Inl e \<Rightarrow> Inl e
      | Inr rs \<Rightarrow> Inr ((of_char a, of_char a) # rs))"
| "classRanges [] = Inr []"

record charClass =
  negated :: bool
  ranges :: "(nat \<times> nat) list"

definition separatorClass :: "string \<Rightarrow> js_error + charClass" where
  "separatorClass parseSep =
     (if CHR 0x5C \<in> set parseSep \<or> CHR '']'' \<in> set parseSep then Inl OutsideModel
      else (case parseSep of
              c # rest \<Rightarrow>
                if c = CHR ''^'' then
                  map_sum id (\<lambda>rs. \<lparr>negated = True, ranges = rs\<rparr>) (classRanges rest)
                else map_sum id (\<lambda>rs. \<lparr>negated = False, ranges = rs\<rparr>) (classRanges parseSep)
            | [] \<Rightarrow> Inr \<lparr>negated = False, ranges = []\<rparr>))"

definition inClass :: "charClass \<Rightarrow> char \<Rightarrow> bool" where
  "inClass cls c =
     (list_ex (\<lambda>(lo, hi). lo \<le> (of_char c :: nat) \<and> (of_char c :: nat) \<le> hi) (ranges cls)
        \<noteq> negated cls)"

text \<open>
  \<^verbatim>\<open>head.split(regex)\<close> for a regex that matches exactly one code unit: the pieces between
  the separators, empty pieces included; the empty string gives one empty piece.
\<close>

fun split :: "(char \<Rightarrow> bool) \<Rightarrow> string \<Rightarrow> string list" where
  "split sep [] = [Nil]"
| "split sep (c # cs) =
     (if sep c then [] # split sep cs
      else (case split sep cs of
              w # ws \<Rightarrow> (c # w) # ws
            | [] \<Rightarrow> [c # Nil]))"

text \<open>\<^verbatim>\<open>source.match(/\s/)?.index\<close>: where the first white space is, if there is one.\<close>

fun searchWhiteSpace :: "string \<Rightarrow> nat option" where
  "searchWhiteSpace [] = None"
| "searchWhiteSpace (c # cs) =
     (if isWhiteSpace c then Some 0 else map_option Suc (searchWhiteSpace cs))"

text \<open>\<^verbatim>\<open>labels.slice(0, n)\<close>: a negative \<open>n\<close> counts from the end.\<close>

definition slice0 :: "'a list \<Rightarrow> int \<Rightarrow> 'a list" where
  "slice0 xs n = (if n < 0 then take (nat (int (length xs) + n)) xs else take (nat n) xs)"

fun join :: "string \<Rightarrow> string list \<Rightarrow> string" where
  "join sep [] = []"
| "join sep [x] = x"
| "join sep (x # y # ys) = x @ sep @ join sep (y # ys)"

definition endsWith :: "string \<Rightarrow> string \<Rightarrow> bool" where
  "endsWith s suffix =
     (length suffix \<le> length s \<and> drop (length s - length suffix) s = suffix)"

subsection \<open>\<^verbatim>\<open>inferNumberPrefix\<close>\<close>

definition inferNumberPrefix ::
  "string \<Rightarrow> string \<Rightarrow> string \<Rightarrow> int \<Rightarrow> js_error + string option" where
  "inferNumberPrefix source parseSep printSep useFirstN =
     (let head = take (case searchWhiteSpace source of
                         None \<Rightarrow> length source
                       | Some index \<Rightarrow> index) source
      in case separatorClass parseSep of
           Inl e \<Rightarrow> Inl e
         | Inr cls \<Rightarrow>
             (let labels = split (inClass cls) head in
              if areValidLabels labels then
                (let usedLabels = slice0 labels useFirstN;
                     prefix = join printSep usedLabels
                 in Inr (Some (if \<not> endsWith prefix printSep then prefix @ printSep
                               else prefix)))
              else Inr None))"

section \<open>Settings resolution\<close>

subsection \<open>Objects and the heap\<close>

text \<open>
  Settings objects are plain mutable objects shared by reference, so they live in a heap:
  an object is a map from property names to values, a value may be a reference to another
  object, and a property may hold \<open>undefined\<close>, which is not the same as lacking it.
  \<open>fresh\<close> is the next unused address; \<^verbatim>\<open>{}\<close> allocates there.
\<close>

datatype jsval = Undefined | Null | Bool bool | Num int | Str string | Ref nat

type_synonym obj = "string \<rightharpoonup> jsval"

record heap =
  objects :: "nat \<Rightarrow> obj"
  fresh :: nat

definition newObject :: "heap \<Rightarrow> nat \<times> heap" where
  "newObject h =
     (fresh h, h\<lparr>objects := (objects h)(fresh h := Map.empty), fresh := Suc (fresh h)\<rparr>)"

text \<open>
  The own enumerable properties that \<^verbatim>\<open>Object.assign\<close> copies from a source: those of the
  object behind a reference, the indexed characters of a string, none for \<open>undefined\<close>,
  \<open>null\<close>, a boolean or a number.
\<close>

definition ownProperties :: "heap \<Rightarrow> jsval \<Rightarrow> obj" where
  "ownProperties h v =
     (case v of
        Ref a \<Rightarrow> objects h a
      | Str s \<Rightarrow> map_of (map (\<lambda>i. (String (int i), Str [s ! i])) [0..<length s])
      | _ \<Rightarrow> Map.empty)"

text \<open>\<^verbatim>\<open>Object.assign(target, source)\<close>: the target object is written, nothing else.\<close>

definition assign :: "nat \<Rightarrow> jsval \<Rightarrow> heap \<Rightarrow> heap" where
  "assign target source h =
     h\<lparr>objects := (objects h)(target := objects h target ++ ownProperties h source)\<rparr>"

text \<open>
  Reading \<^verbatim>\<open>object[key]\<close> on a plain object: a missing property reads \<open>undefined\<close>. (A key
  such as \<^verbatim>\<open>constructor\<close> would read an inherited function, which has no own enumerable
  property: for \<^verbatim>\<open>Object.assign\<close> that is the same as \<open>undefined\<close>.)
\<close>

definition getProp :: "heap \<Rightarrow> nat \<Rightarrow> string \<Rightarrow> jsval" where
  "getProp h a key = (case objects h a key of None \<Rightarrow> Undefined | Some v \<Rightarrow> v)"

subsection \<open>Files and their ancestors\<close>

datatype FileKind = TFile | TFolder

datatype TAbstractFile =
  TAbstractFile (kind: FileKind) (path: string) (basename: string) (isRoot: bool)
    (parent: "TAbstractFile option")

text \<open>
  The loop of \<^verbatim>\<open>getAncestors\<close>, with \<open>ancestors\<close> as the state. The test for the root looks
  at \<open>file\<close>, the starting point, as the source does, not at the current ancestor.
\<close>

fun ancestorsLoop ::
  "TAbstractFile \<Rightarrow> TAbstractFile option \<Rightarrow> TAbstractFile list \<Rightarrow> TAbstractFile list" where
  "ancestorsLoop file None ancestors = ancestors"
| "ancestorsLoop file (Some (TAbstractFile k p b r par)) ancestors =
     (if kind file = TFolder \<and> isRoot file then ancestors @ [TAbstractFile k p b r par]
      else ancestorsLoop file par (ancestors @ [TAbstractFile k p b r par]))"

definition getAncestors :: "TAbstractFile \<Rightarrow> TAbstractFile list" where
  "getAncestors file = rev (ancestorsLoop file (Some file) [])"

subsection \<open>\<^verbatim>\<open>DEFAULT_SETTINGS\<close> and \<^verbatim>\<open>resolveSettings\<close>\<close>

text \<open>
  The global defaults. \<^verbatim>\<open>DEFAULT_LANG\<close> is imported from a module that is not among the
  sources and is a parameter; \<open>rename\<close> holds a reference to the empty object created with
  the defaults.
\<close>

definition DEFAULT_SETTINGS :: "string \<Rightarrow> nat \<Rightarrow> obj" where
  "DEFAULT_SETTINGS DEFAULT_LANG renameObject =
     [''lang'' \<mapsto> Str DEFAULT_LANG,
      ''titleSuffix'' \<mapsto> Str ''.'',
      ''numberPrefix'' \<mapsto> Str [],
      ''numberSuffix'' \<mapsto> Str [],
      ''numberInit'' \<mapsto> Num 1,
      ''numberStyle'' \<mapsto> Str ''arabic'',
      ''numberDefault'' \<mapsto> Str ''auto'',
      ''refFormat'' \<mapsto> Str ''Type + number (+ title)'',
      ''noteMathLinkFormat'' \<mapsto> Str ''Type + number (+ title)'',
      ''eqNumberPrefix'' \<mapsto> Str [],
      ''eqNumberSuffix'' \<mapsto> Str [],
      ''eqNumberInit'' \<mapsto> Num 1,
      ''eqNumberStyle'' \<mapsto> Str ''arabic'',
      ''eqRefPrefix'' \<mapsto> Str [],
      ''eqRefSuffix'' \<mapsto> Str [],
      ''labelPrefix'' \<mapsto> Str [],
      ''rename'' \<mapsto> Ref renameObject,
      ''lineByLine'' \<mapsto> Bool True,
      ''mathCalloutStyle'' \<mapsto> Str ''framed'',
      ''mathCalloutFontInherit'' \<mapsto> Bool False,
      ''mainMathCallout'' \<mapsto> Str ''None'']"

text \<open>The fields of the interface \<^verbatim>\<open>MathContextSettings\<close>.\<close>

definition MathContextSettings :: "string list" where
  "MathContextSettings =
     [''lang'', ''titleSuffix'', ''numberPrefix'', ''numberSuffix'', ''numberInit'',
      ''numberStyle'', ''numberDefault'', ''refFormat'', ''noteMathLinkFormat'',
      ''eqNumberPrefix'', ''eqNumberSuffix'', ''eqNumberInit'', ''eqNumberStyle'',
      ''eqRefPrefix'', ''eqRefSuffix'', ''labelPrefix'', ''rename'', ''lineByLine'',
      ''mathCalloutStyle'', ''mathCalloutFontInherit'', ''mainMathCallout'']"

text \<open>The module's global \<^verbatim>\<open>DEFAULT_SETTINGS\<close> object is the first object of the heap.\<close>

definition DEFAULT_SETTINGS_ref :: nat where
  "DEFAULT_SETTINGS_ref = 0"

text \<open>
  The plugin: \<open>settings\<close> is the address of \<^verbatim>\<open>plugin.settings\<close>, the object that maps a
  path to the settings object stored for it. The other fields are what the title
  formatter reads through the plugin; their declarations are not among the sources, and
  they are taken as given: \<open>profiles\<close> is \<^verbatim>\<open>plugin.extraSettings.profiles\<close>, each profile
  reduced to its table \<^verbatim>\<open>body.theorem\<close> of environment names, and \<open>frontmatter\<close> and
  \<open>frontmatterLinks\<close> are the metadata cache of \<^verbatim>\<open>plugin.app\<close> by file path, with textual
  property values.
\<close>

record Profile =
  theorem_names :: "string \<rightharpoonup> string"

record MathBooster =
  settings :: nat
  profiles :: "string \<rightharpoonup> Profile"
  frontmatter :: "string \<Rightarrow> (string \<rightharpoonup> string)"
  frontmatterLinks :: "string \<Rightarrow> (string \<times> string) list"

text \<open>The loop \<^verbatim>\<open>for (const ancestor of ancestors)\<close>.\<close>

fun assignAncestors :: "MathBooster \<Rightarrow> nat \<Rightarrow> TAbstractFile list \<Rightarrow> heap \<Rightarrow> heap" where
  "assignAncestors plugin resolvedSettings [] h = h"
| "assignAncestors plugin resolvedSettings (ancestor # ancestors) h =
     assignAncestors plugin resolvedSettings ancestors
       (assign resolvedSettings (getProp h (settings plugin) (path ancestor)) h)"

text \<open>
  \<^verbatim>\<open>resolveSettings(settings, plugin, currentFile)\<close>: the local settings are a reference to
  the callout's object or \<open>undefined\<close>. The result is the address of the returned object
  and the heap after the call.
\<close>

definition resolveSettings ::
  "jsval \<Rightarrow> MathBooster \<Rightarrow> TAbstractFile \<Rightarrow> heap \<Rightarrow> nat \<times> heap" where
  "resolveSettings localSettings plugin currentFile h =
     (let (resolvedSettings, h1) = newObject h;
          h2 = assign resolvedSettings (Ref DEFAULT_SETTINGS_ref) h1;
          ancestors = getAncestors currentFile;
          h3 = assignAncestors plugin resolvedSettings ancestors h2;
          h4 = assign resolvedSettings localSettings h3
      in (resolvedSettings, h4))"

section \<open>Title formatting\<close>

text \<open>
  The resolved settings as the title formatter reads them. \<open>callout_index\<close> is the private
  field \<^verbatim>\<open>_index\<close>; \<open>inferNumberPrefixFlag\<close> is the field \<^verbatim>\<open>inferNumberPrefix\<close>. A field the
  code guards with \<^verbatim>\<open>??\<close> or compares with \<open>undefined\<close> is an \<open>option\<close>.
\<close>

record ResolvedMathSettings =
  env_type :: string
  profile :: string
  number :: string
  title :: "string option"
  callout_index :: "int option"
  titleSuffix :: string
  numberPrefix :: string
  numberSuffix :: string
  numberInit :: "int option"
  numberStyle :: "NumberStyle option"
  inferNumberPrefixFromProperty :: string
  inferNumberPrefixFlag :: bool
  inferNumberPrefixParseSep :: string
  inferNumberPrefixPrintSep :: string
  inferNumberPrefixUseFirstN :: int

text \<open>
  Reading \<^verbatim>\<open>table[key]\<close> on a plain object that holds texts: an own property reads its text,
  a name that \<^verbatim>\<open>Object.prototype\<close> defines (\<^verbatim>\<open>constructor\<close>, \<^verbatim>\<open>toString\<close>, ...) reads the
  inherited member, a function or, for \<^verbatim>\<open>__proto__\<close>, the prototype itself, and any other
  name reads \<open>undefined\<close>.
\<close>

datatype property = Absent | Own string | Inherited string

definition OBJECT_PROTOTYPE :: "string list" where
  "OBJECT_PROTOTYPE =
     [''constructor'', ''__defineGetter__'', ''__defineSetter__'', ''hasOwnProperty'',
      ''__lookupGetter__'', ''__lookupSetter__'', ''isPrototypeOf'', ''propertyIsEnumerable'',
      ''toString'', ''valueOf'', ''__proto__'', ''toLocaleString'']"

definition readProperty :: "(string \<rightharpoonup> string) \<Rightarrow> string \<Rightarrow> property" where
  "readProperty table key =
     (case table key of
        Some text \<Rightarrow> Own text
      | None \<Rightarrow> if key \<in> set OBJECT_PROTOTYPE then Inherited key else Absent)"

text \<open>
  String concatenation writes \<open>undefined\<close> as the text \<^verbatim>\<open>undefined\<close> and an inherited member
  as the text the engine prints for it; the language does not fix the text of a built-in
  function, so it is the parameter \<open>nativeText\<close>.
\<close>

definition toStr :: "(string \<Rightarrow> string) \<Rightarrow> property \<Rightarrow> string" where
  "toStr nativeText v =
     (case v of Absent \<Rightarrow> ''undefined'' | Own t \<Rightarrow> t | Inherited key \<Rightarrow> nativeText key)"

definition getProperty :: "MathBooster \<Rightarrow> TAbstractFile \<Rightarrow> string \<Rightarrow> property" where
  "getProperty plugin file name = readProperty (frontmatter plugin (path file)) name"

definition getPropertyLink :: "MathBooster \<Rightarrow> TAbstractFile \<Rightarrow> string \<Rightarrow> string option" where
  "getPropertyLink plugin file name =
     map_option snd (find (\<lambda>link. fst link = name) (frontmatterLinks plugin (path file)))"

definition getPropertyOrLinkTextInProperty ::
  "MathBooster \<Rightarrow> TAbstractFile \<Rightarrow> string \<Rightarrow> property" where
  "getPropertyOrLinkTextInProperty plugin file name =
     (case getPropertyLink plugin file name of
        Some link \<Rightarrow> Own link
      | None \<Rightarrow> getProperty plugin file name)"

text \<open>
  \<^verbatim>\<open>getNumberPrefix\<close>. An inherited member is truthy and has no method \<^verbatim>\<open>slice\<close>, so
  \<^verbatim>\<open>inferNumberPrefix\<close> throws a \<open>TypeError\<close> on it.
\<close>

definition getNumberPrefix ::
  "MathBooster \<Rightarrow> TAbstractFile \<Rightarrow> ResolvedMathSettings \<Rightarrow> js_error + string" where
  "getNumberPrefix plugin file s =
     (if numberPrefix s \<noteq> [] then Inr (numberPrefix s)
      else
        (let source =
               (if inferNumberPrefixFromProperty s \<noteq> []
                then getPropertyOrLinkTextInProperty plugin file (inferNumberPrefixFromProperty s)
                else Own (basename file))
         in case source of
              Absent \<Rightarrow> Inr []
            | Inherited key \<Rightarrow> if inferNumberPrefixFlag s then Inl TypeError else Inr []
            | Own src \<Rightarrow>
                if inferNumberPrefixFlag s \<and> src \<noteq> [] then
                  (case inferNumberPrefix src (inferNumberPrefixParseSep s)
                          (inferNumberPrefixPrintSep s) (inferNumberPrefixUseFirstN s) of
                     Inl e \<Rightarrow> Inl e
                   | Inr None \<Rightarrow> Inr []
                   | Inr (Some prefix) \<Rightarrow> Inr prefix)
                else Inr []))"

text \<open>
  \<^verbatim>\<open>formatTheoremCalloutType\<close>: \<^verbatim>\<open>plugin.extraSettings.profiles[settings.profile]\<close> and then
  \<^verbatim>\<open>profile.body.theorem[settings.type]\<close>. A profile name that is not registered reads
  \<open>undefined\<close> or an inherited member; neither has a \<^verbatim>\<open>body\<close>, so reading \<^verbatim>\<open>theorem\<close> of it
  is a \<open>TypeError\<close>. The table of a registered profile is read like any plain object.
\<close>

definition formatTheoremCalloutType ::
  "MathBooster \<Rightarrow> ResolvedMathSettings \<Rightarrow> js_error + property" where
  "formatTheoremCalloutType plugin s =
     (case profiles plugin (profile s) of
        None \<Rightarrow> Inl TypeError
      | Some p \<Rightarrow> Inr (readProperty (theorem_names p) (env_type s)))"

text \<open>
  \<^verbatim>\<open>formatTitleWithoutSubtitle\<close>. (The source also writes the defaulted \<^verbatim>\<open>numberInit\<close> back
  into the settings object it was given; the value returned does not depend on that.)
\<close>

definition formatTitleWithoutSubtitle ::
  "(string \<Rightarrow> string) \<Rightarrow> MathBooster \<Rightarrow> TAbstractFile \<Rightarrow> ResolvedMathSettings \<Rightarrow>
     js_error + property" where
  "formatTitleWithoutSubtitle nativeText plugin file s =
     (case formatTheoremCalloutType plugin s of
        Inl e \<Rightarrow> Inl e
      | Inr t \<Rightarrow>
          if number s \<noteq> [] then
            (if number s = ''auto'' then
               (case callout_index s of
                  None \<Rightarrow> Inr t
                | Some i \<Rightarrow>
                    (let init = (case numberInit s of None \<Rightarrow> 1 | Some k \<Rightarrow> k);
                         num = i + init;
                         style = (case numberStyle s of None \<Rightarrow> arabic | Some st \<Rightarrow> st)
                     in case getNumberPrefix plugin file s of
                          Inl e \<Rightarrow> Inl e
                        | Inr prefix \<Rightarrow>
                            (case CONVERTER style num of
                               Inl e \<Rightarrow> Inl e
                             | Inr numeralText \<Rightarrow>
                                 Inr (Own (toStr nativeText t @ '' '' @ prefix @ numeralText
                                           @ numberSuffix s)))))
             else Inr (Own (toStr nativeText t @ '' '' @ number s)))
          else Inr t)"

definition formatTitle ::
  "(string \<Rightarrow> string) \<Rightarrow> MathBooster \<Rightarrow> TAbstractFile \<Rightarrow> ResolvedMathSettings \<Rightarrow> bool \<Rightarrow>
     js_error + property" where
  "formatTitle nativeText plugin file s noTitleSuffix =
     (case formatTitleWithoutSubtitle nativeText plugin file s of
        Inl e \<Rightarrow> Inl e
      | Inr t0 \<Rightarrow>
          (let t1 = (case title s of
                       None \<Rightarrow> t0
                     | Some sub \<Rightarrow>
                         if sub \<noteq> [] then Own (toStr nativeText t0 @ '' ('' @ sub @ '')'') else t0);
               t2 = (if \<not> noTitleSuffix \<and> titleSuffix s \<noteq> []
                     then Own (toStr nativeText t1 @ titleSuffix s)
                     else t1)
           in Inr t2))"

section \<open>Reading a theorem callout\<close>

text \<open>
  \<^verbatim>\<open>THEOREM_CALLOUT_PATTERN = /\> *\[\! *math *\|(.*?)\](.*)/\<close>. The pattern is not anchored:
  \<^verbatim>\<open>exec\<close> takes the leftmost place where it matches. At one place the match is forced: the
  runs of spaces are followed by a character that is not a space, the lazy group ends at the
  first closing bracket, and a dot does not cross a line terminator.
\<close>

definition isLineTerminator :: "char \<Rightarrow> bool" where
  "isLineTerminator c = ((of_char c :: nat) \<in> {10, 13})"

definition skipSpaces :: "string \<Rightarrow> string" where
  "skipSpaces s = dropWhile (\<lambda>c. c = CHR '' '') s"

definition expect :: "string \<Rightarrow> string \<Rightarrow> string option" where
  "expect w s = (if take (length w) s = w then Some (drop (length w) s) else None)"

definition matchHere :: "string \<Rightarrow> (string \<times> string) option" where
  "matchHere s =
     (case expect ''>'' s of
        None \<Rightarrow> None
      | Some s1 \<Rightarrow>
     (case expect ''[!'' (skipSpaces s1) of
        None \<Rightarrow> None
      | Some s2 \<Rightarrow>
     (case expect ''math'' (skipSpaces s2) of
        None \<Rightarrow> None
      | Some s3 \<Rightarrow>
     (case expect ''|'' (skipSpaces s3) of
        None \<Rightarrow> None
      | Some s4 \<Rightarrow>
          (let group1 = takeWhile (\<lambda>c. c \<noteq> CHR '']'' \<and> \<not> isLineTerminator c) s4
           in case expect '']'' (drop (length group1) s4) of
                None \<Rightarrow> None
              | Some s5 \<Rightarrow> Some (group1, takeWhile (\<lambda>c. \<not> isLineTerminator c) s5))))))"

fun exec :: "string \<Rightarrow> (string \<times> string) option" where
  "exec [] = matchHere []"
| "exec (c # cs) = (case matchHere (c # cs) of Some m \<Rightarrow> Some m | None \<Rightarrow> exec cs)"

definition matchTheoremCallout :: "string \<Rightarrow> (string \<times> string) option" where
  "matchTheoremCallout line = (if line \<noteq> [] then exec line else None)"

definition trim :: "string \<Rightarrow> string" where
  "trim s = rev (dropWhile isWhiteSpace (rev (dropWhile isWhiteSpace s)))"

text \<open>
  \<^verbatim>\<open>readTheoremCalloutSettingsAndTitle\<close>. \<^verbatim>\<open>JSON.parse\<close> is the parameter \<open>parse\<close>: it gives
  \<open>None\<close> where the built-in throws a \<open>SyntaxError\<close>, and nothing in the function catches it.
\<close>

definition readTheoremCalloutSettingsAndTitle ::
  "(string \<Rightarrow> 's option) \<Rightarrow> string \<Rightarrow> js_error + ('s \<times> string) option" where
  "readTheoremCalloutSettingsAndTitle parse line =
     (case matchTheoremCallout line of
        None \<Rightarrow> Inr None
      | Some (group1, group2) \<Rightarrow>
          (case parse group1 of
             None \<Rightarrow> Inl SyntaxError
           | Some s \<Rightarrow> Inr (Some (s, trim group2))))"

definition readTheoremCalloutSettings ::
  "(string \<Rightarrow> 's option) \<Rightarrow> string \<Rightarrow> js_error + 's option" where
  "readTheoremCalloutSettings parse line =
     (case readTheoremCalloutSettingsAndTitle parse line of
        Inl e \<Rightarrow> Inl e
      | Inr None \<Rightarrow> Inr None
      | Inr (Some result) \<Rightarrow> Inr (Some (fst result)))"

subsection \<open>The scan of a note\<close>

record 's TheoremItem =
  item_line :: nat
  item_settings :: 's
  item_title :: string
  item_index :: nat

text \<open>
  Modelled from the spec: the scan of a note's callout sections, which belongs to the
  indexer and is not among the sources. The spec: every callout section whose header line
  matches the theorem-callout marker is read; malformed JSON is a per-item parse failure
  (skip that item, do not abort the scan); each item gets as \<^verbatim>\<open>_index\<close> its zero-based rank
  among the callouts of the same type, in document order. A section is given by the number
  and the text of its header line; \<open>typeOf\<close> reads the field \<^verbatim>\<open>type\<close> of the settings.
\<close>

fun scanLoop ::
  "(string \<Rightarrow> 's option) \<Rightarrow> ('s \<Rightarrow> string) \<Rightarrow> (nat \<times> string) list \<Rightarrow> 's TheoremItem list \<Rightarrow>
     's TheoremItem list" where
  "scanLoop parse typeOf [] items = items"
| "scanLoop parse typeOf (section # sections) items =
     (case readTheoremCalloutSettingsAndTitle parse (snd section) of
        Inl e \<Rightarrow> scanLoop parse typeOf sections items
      | Inr None \<Rightarrow> scanLoop parse typeOf sections items
      | Inr (Some (s, t)) \<Rightarrow>
          scanLoop parse typeOf sections
            (items @ [\<lparr>item_line = fst section, item_settings = s, item_title = t,
                       item_index =
                         length (filter (\<lambda>it. typeOf (item_settings it) = typeOf s) items)\<rparr>]))"

definition scanCallouts ::
  "(string \<Rightarrow> 's option) \<Rightarrow> ('s \<Rightarrow> string) \<Rightarrow> (nat \<times> string) list \<Rightarrow> 's TheoremItem list" where
  "scanCallouts parse typeOf sections = scanLoop parse typeOf sections []"

section \<open>Reference notions used to state the properties\<close>

text \<open>
  The value of a word over \<open>A\<close> to \<open>Z\<close> read as a positional numeral of radix 26 with
  \<open>A\<close> = 0, most significant letter first.
\<close>

definition alphValue :: "string \<Rightarrow> int" where
  "alphValue s = foldl (\<lambda>acc c. 26 * acc + (int (of_char c) - 65)) 0 s"

text \<open>
  The reverse parse of a Roman numeral: a symbol standing before a larger one is
  subtracted, every other symbol is added. \<open>parseRoman\<close> accepts a non-empty word of the
  classic subtractive notation only, which is what the Roman pattern of the label check
  describes (here without the flag \<^verbatim>\<open>i\<close>).
\<close>

definition symbolValue :: "char \<Rightarrow> int" where
  "symbolValue c =
     (if c = CHR ''I'' then 1 else if c = CHR ''V'' then 5 else if c = CHR ''X'' then 10
      else if c = CHR ''L'' then 50 else if c = CHR ''C'' then 100
      else if c = CHR ''D'' then 500 else if c = CHR ''M'' then 1000 else 0)"

fun romanValue :: "string \<Rightarrow> int" where
  "romanValue [] = 0"
| "romanValue [c] = symbolValue c"
| "romanValue (c # d # cs) =
     (if symbolValue c < symbolValue d then - symbolValue c else symbolValue c)
       + romanValue (d # cs)"

definition parseRoman :: "string \<Rightarrow> int option" where
  "parseRoman s =
     (if s \<noteq> [] \<and> matchesWhole False ROMAN_PATTERN s then Some (romanValue s) else None)"

text \<open>
  The words a pattern is made of: a pattern without repetition stands for finitely many
  words, and it matches a text exactly when the text is one of them, up to the case of the
  letters when the flag \<^verbatim>\<open>i\<close> is set.
\<close>

fun wordsOf :: "re \<Rightarrow> string list" where
  "wordsOf (Lit w) = [w]"
| "wordsOf (Alt a b) = wordsOf a @ wordsOf b"
| "wordsOf (Cat a b) = concat (map (\<lambda>u. map (\<lambda>v. u @ v) (wordsOf b)) (wordsOf a))"
| "wordsOf (Opt a) = wordsOf a @ [Nil]"

text \<open>A text as the comparison of the matcher sees it.\<close>

definition canon :: "bool \<Rightarrow> string \<Rightarrow> string" where
  "canon ic w = (if ic then map upperChar w else w)"
text \<open>
  A value is allocated in a heap when it is not a reference or refers to an object that
  exists already. \<open>storedFor\<close> is what \<^verbatim>\<open>Object.assign\<close> copies for one ancestor: the own
  properties of \<^verbatim>\<open>plugin.settings[ancestor.path]\<close>.
\<close>

definition allocated :: "heap \<Rightarrow> jsval \<Rightarrow> bool" where
  "allocated h v = (case v of Ref a \<Rightarrow> a < fresh h | _ \<Rightarrow> True)"

definition storedFor :: "heap \<Rightarrow> MathBooster \<Rightarrow> TAbstractFile \<Rightarrow> obj" where
  "storedFor h plugin ancestor = ownProperties h (getProp h (settings plugin) (path ancestor))"

text \<open>
  The heap is well formed for a call of \<^verbatim>\<open>resolveSettings\<close> when the objects the call
  reads exist: the defaults, the store, the entries stored for the ancestors and the local
  settings.
\<close>

definition wellFormed :: "heap \<Rightarrow> MathBooster \<Rightarrow> TAbstractFile \<Rightarrow> jsval \<Rightarrow> bool" where
  "wellFormed h plugin currentFile localSettings =
     (DEFAULT_SETTINGS_ref < fresh h \<and> settings plugin < fresh h \<and>
      list_all (\<lambda>ancestor. allocated h (getProp h (settings plugin) (path ancestor)))
        (getAncestors currentFile) \<and>
      allocated h localSettings)"

text \<open>
  The chain of a file: the file, its parent, the parent of that, up to a file without parent.
\<close>

fun chain :: "TAbstractFile \<Rightarrow> TAbstractFile list" where
  "chain (TAbstractFile k p b r par) =
     TAbstractFile k p b r par # (case par of None \<Rightarrow> [] | Some f \<Rightarrow> chain f)"

section \<open>A small vault, for concrete instances\<close>

text \<open>
  A vault with the folder \<^verbatim>\<open>ch1\<close> and the notes \<^verbatim>\<open>ch1/a.md\<close> and \<^verbatim>\<open>ch1/b.md\<close>. The heap holds
  the defaults (0) with their \<open>rename\<close> object (1), the store (2) with entries for the root
  (3), for the folder (4) and for \<^verbatim>\<open>ch1/b.md\<close> (6), and the settings of one callout (5).
\<close>

definition vaultRoot :: TAbstractFile where
  "vaultRoot = TAbstractFile TFolder ''/'' [] True None"

definition folderCh1 :: TAbstractFile where
  "folderCh1 = TAbstractFile TFolder ''ch1'' ''ch1'' False (Some vaultRoot)"

definition noteA :: TAbstractFile where
  "noteA = TAbstractFile TFile ''ch1/a.md'' ''a'' False (Some folderCh1)"

definition noteB :: TAbstractFile where
  "noteB = TAbstractFile TFile ''ch1/b.md'' ''b'' False (Some folderCh1)"

definition vaultObjects :: "nat \<Rightarrow> obj" where
  "vaultObjects a =
     (if a = 0 then DEFAULT_SETTINGS ''en'' 1
      else if a = 2 then [''/'' \<mapsto> Ref 3, ''ch1'' \<mapsto> Ref 4, ''ch1/b.md'' \<mapsto> Ref 6]
      else if a = 3 then [''numberStyle'' \<mapsto> Str ''roman'', ''titleSuffix'' \<mapsto> Str '':'']
      else if a = 4 then [''numberStyle'' \<mapsto> Str ''Alph'']
      else if a = 5 then [''type'' \<mapsto> Str ''thm'', ''number'' \<mapsto> Str ''auto'',
                          ''titleSuffix'' \<mapsto> Str []]
      else if a = 6 then [''lang'' \<mapsto> Undefined]
      else Map.empty)"

definition vaultHeap :: heap where
  "vaultHeap = \<lparr>objects = vaultObjects, fresh = 7\<rparr>"

definition vaultPlugin :: MathBooster where
  "vaultPlugin =
     \<lparr>settings = 2,
      profiles = [''English'' \<mapsto> \<lparr>theorem_names = [''thm'' \<mapsto> ''Theorem'']\<rparr>],
      frontmatter = (\<lambda>p. Map.empty),
      frontmatterLinks = (\<lambda>p. [])\<rparr>"

definition calloutAuto :: ResolvedMathSettings where
  "calloutAuto =
     \<lparr>env_type = ''thm'', profile = ''English'', number = ''auto'', title = Some ''Euler'',
      callout_index = None, titleSuffix = ''.'', numberPrefix = [], numberSuffix = [],
      numberInit = Some 1, numberStyle = Some arabic, inferNumberPrefixFromProperty = [],
      inferNumberPrefixFlag = True, inferNumberPrefixParseSep = '' .'',
      inferNumberPrefixPrintSep = ''.'', inferNumberPrefixUseFirstN = 1\<rparr>"

text \<open>
  What V8 prints for the members of \<^verbatim>\<open>Object.prototype\<close>, as an instance of the engine's
  text.
\<close>

definition v8Text :: "string \<Rightarrow> string" where
  "v8Text key =
     (if key = ''__proto__'' then ''[object Object]''
      else if key = ''constructor'' then ''function Object() { [native code] }''
      else ''function '' @ key @ ''() { [native code] }'')"

section \<open>The alphabetic formatters\<close>

lemma alphEntry_table:
  "\<forall>d\<in>set [0..<26]. alphEntry (DIGITS ! d) = [ALPH ! d] \<and> (of_char (ALPH ! d) :: nat) = 65 + d"
  by code_simp

lemma alphEntry_digit: "d < 26 \<Longrightarrow> alphEntry (DIGITS ! d) = [ALPH ! d]"
  using alphEntry_table by simp

lemma ALPH_code: "d < 26 \<Longrightarrow> (of_char (ALPH ! d) :: nat) = 65 + d"
  using alphEntry_table by simp

lemma alphValue_snoc: "alphValue (s @ [c]) = 26 * alphValue s + (int (of_char c) - 65)"
  by (simp add: alphValue_def)

lemma alphValue_letters: "alphValue (concat (map alphEntry (digitsRadix 26 m))) = int m"
proof (induction "26::nat" m rule: digitsRadix.induct)
  case (1 n)
  show ?case
  proof (cases "n < 26")
    case True
    then show ?thesis
      by (simp add: digitsRadix.simps [of 26 n] alphEntry_digit alphValue_def ALPH_code)
  next
    case False
    then have ih: "alphValue (concat (map alphEntry (digitsRadix 26 (n div 26)))) = int (n div 26)"
      using 1 by simp
    have d: "n mod 26 < 26" by simp
    show ?thesis
      using False ih
      by (simp add: digitsRadix.simps [of 26 n] alphEntry_digit [OF d] alphValue_snoc
          ALPH_code [OF d] of_nat_mod of_nat_div)
  qed
qed

lemma alphEntry_subset: "set (alphEntry c) \<subseteq> set ALPH"
  by (auto simp: alphEntry_def split: option.splits)

lemma letters_subset: "set (concat (map alphEntry s)) \<subseteq> set ALPH"
  using alphEntry_subset by auto

lemma digitsRadix26_step:
  "26 \<le> m \<Longrightarrow> digitsRadix 26 m = digitsRadix 26 (m div 26) @ [DIGITS ! (m mod 26)]"
  by (simp add: digitsRadix.simps [of 26 m])

lemma toAlphUpper_digits:
  "1 \<le> n \<Longrightarrow> toAlphUpper n = concat (map alphEntry (digitsRadix 26 (nat (n - 1))))"
  by (simp add: toAlphUpper_def numberToString_def)

lemma toAlphUpper_step:
  assumes "26 < n"
  shows "toAlphUpper n = toAlphUpper ((n - 1) div 26 + 1) @ [ALPH ! nat ((n - 1) mod 26)]"
proof -
  let ?m = "nat (n - 1)"
  have m: "26 \<le> ?m" using assms by simp
  have q: "nat ((n - 1) div 26) = ?m div 26" using assms by (simp add: nat_div_distrib)
  have r: "nat ((n - 1) mod 26) = ?m mod 26" using assms by (simp add: nat_mod_distrib)
  have d: "?m mod 26 < 26" by simp
  have "1 \<le> (n - 1) div 26 + 1" using assms by simp
  then have up: "toAlphUpper ((n - 1) div 26 + 1) =
      concat (map alphEntry (digitsRadix 26 (?m div 26)))"
    by (simp add: toAlphUpper_digits q)
  have "toAlphUpper n = concat (map alphEntry (digitsRadix 26 ?m))"
    using assms by (simp add: toAlphUpper_digits)
  also have "\<dots> = concat (map alphEntry (digitsRadix 26 (?m div 26))) @ [ALPH ! (?m mod 26)]"
    by (simp add: digitsRadix26_step [OF m] alphEntry_digit [OF d])
  finally show ?thesis by (simp only: up r)
qed

lemma toLowerCase_table:
  "\<forall>d\<in>set [0..<26]. toLowerCase [ALPH ! d] = [''abcdefghijklmnopqrstuvwxyz'' ! d]"
  by code_simp

lemma toLowerCase_letter:
  "d < 26 \<Longrightarrow> toLowerCase [ALPH ! d] = [''abcdefghijklmnopqrstuvwxyz'' ! d]"
  using toLowerCase_table by simp

lemma toLowerCase_append: "toLowerCase (u @ v) = toLowerCase u @ toLowerCase v"
  by (simp add: toLowerCase_def)

text \<open>
  C1, as the code has it. For every \<open>n\<close> from 1 to \<open>2^53 - 1\<close> the alphabetic formatters
  write \<open>n - 1\<close> as a positional numeral of radix 26 over the letters, \<open>A\<close> standing for the
  digit 0: for \<open>n\<close> up to 26 the result is the \<open>n\<close>-th letter alone, and beyond 26 it is the
  numeral of \<open>(n - 1) div 26 + 1\<close> followed by the letter of the digit \<open>(n - 1) mod 26\<close>,
  which fixes the numeral letter by letter, in upper case for \<open>toAlphUpper\<close> and in lower
  case for \<open>toAlphLower\<close>. It consists of letters, its positional value is \<open>n - 1\<close>, and the
  lower-case formatter is the upper-case one in lower case. So \<open>toAlphLower 1\<close> is \<open>a\<close> and
  \<open>toAlphLower 26\<close> is \<open>z\<close>, but \<open>toAlphLower 27\<close> is \<open>ba\<close> and \<open>toAlphUpper 28\<close> is \<open>BB\<close>.
\<close>

theorem alph_positional:
  "(\<forall>n. 1 \<le> n \<and> n \<le> MAX_SAFE_INTEGER \<longrightarrow>
      (n \<le> 26 \<longrightarrow> toAlphUpper n = [ALPH ! nat (n - 1)]) \<and>
      (26 < n \<longrightarrow>
         toAlphUpper n = toAlphUpper ((n - 1) div 26 + 1) @ [ALPH ! nat ((n - 1) mod 26)]) \<and>
      (n \<le> 26 \<longrightarrow> toAlphLower n = [''abcdefghijklmnopqrstuvwxyz'' ! nat (n - 1)]) \<and>
      (26 < n \<longrightarrow>
         toAlphLower n =
           toAlphLower ((n - 1) div 26 + 1) @
             [''abcdefghijklmnopqrstuvwxyz'' ! nat ((n - 1) mod 26)]) \<and>
      set (toAlphUpper n) \<subseteq> set ALPH \<and> alphValue (toAlphUpper n) = n - 1 \<and>
      toAlphLower n = toLowerCase (toAlphUpper n)) \<and>
   toAlphLower 1 = ''a'' \<and> toAlphLower 26 = ''z'' \<and> toAlphLower 27 = ''ba'' \<and>
   toAlphUpper 28 = ''BB''"
proof -
  have gen: "(n \<le> 26 \<longrightarrow> toAlphUpper n = [ALPH ! nat (n - 1)]) \<and>
      (26 < n \<longrightarrow>
         toAlphUpper n = toAlphUpper ((n - 1) div 26 + 1) @ [ALPH ! nat ((n - 1) mod 26)]) \<and>
      (n \<le> 26 \<longrightarrow> toAlphLower n = [''abcdefghijklmnopqrstuvwxyz'' ! nat (n - 1)]) \<and>
      (26 < n \<longrightarrow>
         toAlphLower n =
           toAlphLower ((n - 1) div 26 + 1) @
             [''abcdefghijklmnopqrstuvwxyz'' ! nat ((n - 1) mod 26)]) \<and>
      set (toAlphUpper n) \<subseteq> set ALPH \<and> alphValue (toAlphUpper n) = n - 1 \<and>
      toAlphLower n = toLowerCase (toAlphUpper n)" if n: "1 \<le> n" for n
  proof -
    have 1: "set (toAlphUpper n) \<subseteq> set ALPH"
      unfolding toAlphUpper_def by (rule letters_subset)
    have 2: "alphValue (toAlphUpper n) = n - 1"
      using n by (simp add: toAlphUpper_digits alphValue_letters)
    have 3: "toAlphUpper n = [ALPH ! nat (n - 1)]" if "n \<le> 26"
    proof -
      have "nat (n - 1) < 26" using n that by simp
      then show ?thesis
        using n
        by (simp add: toAlphUpper_digits digitsRadix.simps [of 26 "nat (n - 1)"] alphEntry_digit)
    qed
    have 4: "toAlphLower n = [''abcdefghijklmnopqrstuvwxyz'' ! nat (n - 1)]" if "n \<le> 26"
    proof -
      have "nat (n - 1) < 26" using n that by simp
      then show ?thesis
        unfolding toAlphLower_def 3 [OF that] by (rule toLowerCase_letter)
    qed
    have 5: "toAlphLower n =
        toAlphLower ((n - 1) div 26 + 1) @
          [''abcdefghijklmnopqrstuvwxyz'' ! nat ((n - 1) mod 26)]" if "26 < n"
    proof -
      have "nat ((n - 1) mod 26) < 26" by simp
      then show ?thesis
        unfolding toAlphLower_def toAlphUpper_step [OF that] toLowerCase_append
        by (simp only: toLowerCase_letter)
    qed
    show ?thesis using 1 2 3 4 5 toAlphUpper_step [of n] by (simp add: toAlphLower_def)
  qed
  have a: "toAlphLower 1 = ''a''" by code_simp
  have b: "toAlphLower 26 = ''z''" by code_simp
  have c: "toAlphLower 27 = ''ba''" by code_simp
  have d: "toAlphUpper 28 = ''BB''" by code_simp
  show ?thesis using gen a b c d by blast
qed

theorem alph_positional_witness:
  "(1::int) \<le> 3 \<and> (3::int) \<le> MAX_SAFE_INTEGER \<and> (3::int) \<le> 26 \<and> toAlphUpper 3 = ''C'' \<and>
   toAlphLower 3 = ''c'' \<and>
   (1::int) \<le> 705 \<and> (705::int) \<le> MAX_SAFE_INTEGER \<and> (26::int) < 705 \<and>
   toAlphUpper 28 = ''BB'' \<and> toAlphUpper 705 = ''BBC'' \<and> alphValue (toAlphUpper 705) = 704 \<and>
   toAlphLower 705 = ''bbc''"
proof -
  have r3: "(1::int) \<le> 3 \<and> (3::int) \<le> MAX_SAFE_INTEGER"
    and r705: "(1::int) \<le> 705 \<and> (705::int) \<le> MAX_SAFE_INTEGER"
    by (simp_all add: MAX_SAFE_INTEGER_def)
  note g3 = conjunct1 [OF alph_positional, THEN spec, of 3, THEN mp, OF r3]
  note g705 = conjunct1 [OF alph_positional, THEN spec, of 705, THEN mp, OF r705]
  have A: "ALPH ! 2 = CHR ''C''" by (simp add: ALPH_def)
  have t3: "toAlphUpper 3 = ''C''" using g3 [THEN conjunct1] by (simp add: A)
  have l3: "toAlphLower 3 = ''c''"
    using g3 [THEN conjunct2, THEN conjunct2, THEN conjunct1] by simp
  have t28: "toAlphUpper 28 = ''BB''" using alph_positional by blast
  have t705: "toAlphUpper 705 = ''BBC''"
    using g705 [THEN conjunct2, THEN conjunct1] t28 by (simp add: A)
  have v: "alphValue (toAlphUpper 705) = 704"
    using g705 [THEN conjunct2, THEN conjunct2, THEN conjunct2, THEN conjunct2, THEN conjunct2,
        THEN conjunct1] by simp
  have l: "toAlphLower 705 = ''bbc''"
  proof -
    have "toAlphLower 705 = toLowerCase (toAlphUpper 705)"
      using g705 [THEN conjunct2, THEN conjunct2, THEN conjunct2, THEN conjunct2, THEN conjunct2,
          THEN conjunct2] .
    also have "\<dots> = ''bbc''" unfolding t705 by code_simp
    finally show ?thesis .
  qed
  show ?thesis using r3 r705 t3 l3 t28 t705 v l by simp
qed

text \<open>
  C1 as the spec states it fails: in bijective base 26 the numeral of 27 is \<open>aa\<close> and that of
  28 is \<open>AB\<close>; the code gives neither.
\<close>

theorem alph_bijective_counterexample:
  "toAlphLower 27 \<noteq> ''aa'' \<and> toAlphUpper 28 \<noteq> ''AB''"
  by code_simp

section \<open>Numerals out of range\<close>

text \<open>
  C3. The Roman formatters do throw on some negative numbers. For \<open>-100\<close> the text is
  \<^verbatim>\<open>-100\<close>; the loop pops its three digits, the sign alone is left, unary plus makes it
  \<open>NaN\<close>, and \<^verbatim>\<open>Array(NaN)\<close> throws a \<open>RangeError\<close>. The same number goes through the arabic
  and the alphabetic formatters without an exception.
\<close>

theorem roman_negative_throws:
  "toRomanUpper (- 100) = Inl RangeError \<and> toRomanLower (- 100) = Inl RangeError \<and>
   CONVERTER Roman (- 100) = Inl RangeError \<and> CONVERTER roman (- 100) = Inl RangeError \<and>
   CONVERTER arabic (- 100) = Inr ''-100'' \<and> CONVERTER Alph (- 100) = Inr ''DX''"
  by code_simp

section \<open>Prefix inference on the examples\<close>

text \<open>
  C2, as the code has it. The labels are joined with the print separator, so the first
  example gives \<open>1.2.A.\<close>; the second gives no prefix and the third gives \<open>A.\<close>.
\<close>

theorem inferNumberPrefix_examples:
  "inferNumberPrefix ''1-2.A foo'' ''-.'' ''.'' 3 = Inr (Some ''1.2.A.'') \<and>
   inferNumberPrefix ''A note about calculus'' '' .'' ''.'' 1 = Inr None \<and>
   inferNumberPrefix ''A. note'' ''.'' ''.'' 1 = Inr (Some ''A.'')"
  by code_simp

text \<open>C2 as the spec states it fails on its first example: the result is not \<open>1-2.A.\<close>.\<close>

theorem inferNumberPrefix_first_example_counterexample:
  "inferNumberPrefix ''1-2.A foo'' ''-.'' ''.'' 3 \<noteq> Inr (Some ''1-2.A.'')"
  by code_simp

section \<open>Roman numerals: the round trip\<close>

subsection \<open>What the formatter returns\<close>

lemma digitsRadix10_small: "m < 10 \<Longrightarrow> digitsRadix 10 m = [DIGITS ! m]"
  by (simp add: digitsRadix.simps [of 10 m])

lemma digitsRadix10_step:
  "10 \<le> m \<Longrightarrow> digitsRadix 10 m = digitsRadix 10 (m div 10) @ [DIGITS ! (m mod 10)]"
  by (simp add: digitsRadix.simps [of 10 m])

lemma pop_digits: "pop (digitsRadix 10 m) = Some (DIGITS ! (m mod 10))"
  by (cases "m < 10") (simp_all add: pop_def digitsRadix10_small digitsRadix10_step)

lemma butlast_digits:
  "butlast (digitsRadix 10 m) = (if m < 10 then [] else digitsRadix 10 (m div 10))"
  by (cases "m < 10") (simp_all add: digitsRadix10_small digitsRadix10_step)

lemma romanEntry_table:
  "\<forall>d\<in>set [0..<10]. \<forall>i\<in>set [0..<3]. romanEntry (Some (DIGITS ! d)) i = ROMAN ! (d + i * 10)"
  by code_simp

lemma romanEntry_digit:
  "d < 10 \<Longrightarrow> i < 3 \<Longrightarrow> romanEntry (Some (DIGITS ! d)) i = ROMAN ! (d + i * 10)"
  using romanEntry_table by simp

lemma romanEntry_undefined: "romanEntry None i = []"
  by (simp add: romanEntry_def toNumberPopped_def)

lemma ROMAN_zero: "ROMAN ! 0 = []" "ROMAN ! 10 = []" "ROMAN ! 20 = []"
  by (simp_all add: ROMAN_def)

lemma romanLoop_3:
  "romanLoop 3 d [] =
     (butlast (butlast (butlast d)),
      romanEntry (pop (butlast (butlast d))) 0 @ romanEntry (pop (butlast d)) 1 @
        romanEntry (pop d) 2)"
  by (simp add: numeral_3_eq_3 numeral_2_eq_2)

lemma pop_empty: "pop [] = None"
  by (simp add: pop_def)

lemma romanLoop_digits:
  "romanLoop 3 (digitsRadix 10 m) [] =
     (if m < 1000 then [] else digitsRadix 10 (m div 1000),
      ROMAN ! (m div 100 mod 10) @ ROMAN ! (10 + m div 10 mod 10) @ ROMAN ! (20 + m mod 10))"
proof -
  consider "m < 10" | "10 \<le> m" "m < 100" | "100 \<le> m" "m < 1000" | "1000 \<le> m"
    by linarith
  then show ?thesis
  proof cases
    case 1
    then show ?thesis
      by (simp add: romanLoop_3 butlast_digits pop_digits pop_empty romanEntry_digit
          romanEntry_undefined ROMAN_zero add.commute)
  next
    case 2
    then have "m div 10 < 10" "m div 100 = 0" by simp_all
    with 2 show ?thesis
      by (simp add: romanLoop_3 butlast_digits pop_digits pop_empty romanEntry_digit
          romanEntry_undefined ROMAN_zero add.commute)
  next
    case 3
    then have "\<not> m div 10 < 10" "m div 10 div 10 < 10" "m div 10 div 10 = m div 100"
      by (simp_all add: div_mult2_eq [symmetric])
    with 3 show ?thesis
      by (simp add: romanLoop_3 butlast_digits pop_digits pop_empty romanEntry_digit
          romanEntry_undefined ROMAN_zero add.commute)
  next
    case 4
    then have "\<not> m div 10 < 10" "\<not> m div 10 div 10 < 10" "m div 10 div 10 = m div 100"
      "m div 100 div 10 = m div 1000"
      by (simp_all add: div_mult2_eq [symmetric])
    with 4 show ?thesis
      by (simp add: romanLoop_3 butlast_digits pop_digits pop_empty romanEntry_digit
          romanEntry_undefined ROMAN_zero add.commute)
  qed
qed

lemma toNumberString_table: "\<forall>k\<in>set [0..<10]. toNumberString [DIGITS ! k] = Some (int k)"
  by code_simp

lemma toNumberString_digit: "k < 10 \<Longrightarrow> toNumberString [DIGITS ! k] = Some (int k)"
  using toNumberString_table by simp

lemma toRomanUpper_below_10000:
  assumes "0 \<le> n" "n < 10000"
  shows "toRomanUpper n =
     Inr (replicate (nat n div 1000) CHR ''M'' @ ROMAN ! (nat n div 100 mod 10) @
          ROMAN ! (10 + nat n div 10 mod 10) @ ROMAN ! (20 + nat n mod 10))"
proof -
  let ?m = "nat n"
  have str: "String n = digitsRadix 10 ?m"
    using assms by (simp add: String_def numberToString_def)
  have k: "?m div 1000 < 10" using assms by simp
  have th: "toNumberString (if ?m < 1000 then [] else digitsRadix 10 (?m div 1000)) = Some (int (?m div 1000))"
    using k by (simp add: digitsRadix10_small toNumberString_digit) (simp add: toNumberString_def)
  have rep: "concat (replicate j ''M'') = replicate j CHR ''M''" for j
    by (induction j) simp_all
  show ?thesis
    using k
    by (simp add: toRomanUpper_def str romanLoop_digits th arrayJoin_def rep del: replicate.simps)
qed

subsection \<open>The value of the numeral\<close>

lemma symbolValue_bounds: "0 \<le> symbolValue c" "symbolValue c \<le> 1000"
  by (simp_all add: symbolValue_def)

lemma romanValue_append:
  "xs = [] \<or> ys = [] \<or> symbolValue (hd ys) \<le> symbolValue (last xs) \<Longrightarrow>
   romanValue (xs @ ys) = romanValue xs + romanValue ys"
proof (induction xs rule: romanValue.induct)
  case 1
  then show ?case by simp
next
  case (2 c)
  then show ?case by (cases ys) auto
next
  case (3 c d cs)
  then show ?case by simp
qed

lemma romanValue_Ms: "romanValue (replicate k CHR ''M'') = 1000 * int k"
proof (induction k)
  case 0
  then show ?case by simp
next
  case (Suc k)
  have "romanValue ([CHR ''M''] @ replicate k CHR ''M'') =
      romanValue [CHR ''M''] + romanValue (replicate k CHR ''M'')"
    by (rule romanValue_append) (simp add: symbolValue_bounds symbolValue_def)
  then show ?case using Suc by (simp add: symbolValue_def)
qed

lemma digits_list: "d < 10 \<Longrightarrow> d \<in> set [0, 1, 2, 3, 4, 5, 6, 7, 8, 9::nat]"
  by (simp add: less_Suc_eq numeral_eq_Suc) 

lemma hundreds_table:
  "list_all (\<lambda>b. romanValue (ROMAN ! b) = 100 * int b \<and>
       (ROMAN ! b = [] \<or> 100 \<le> symbolValue (last (ROMAN ! b))))
     [0, 1, 2, 3, 4, 5, 6, 7, 8, 9]"
  by code_simp

lemma tens_table:
  "list_all (\<lambda>c. romanValue (ROMAN ! (10 + c)) = 10 * int c \<and>
       (ROMAN ! (10 + c) = [] \<or>
        10 \<le> symbolValue (last (ROMAN ! (10 + c))) \<and> symbolValue (hd (ROMAN ! (10 + c))) \<le> 50))
     [0, 1, 2, 3, 4, 5, 6, 7, 8, 9]"
  by code_simp

lemma ones_table:
  "list_all (\<lambda>d. romanValue (ROMAN ! (20 + d)) = int d \<and>
       (ROMAN ! (20 + d) = [] \<or> symbolValue (hd (ROMAN ! (20 + d))) \<le> 5))
     [0, 1, 2, 3, 4, 5, 6, 7, 8, 9]"
  by code_simp


lemmas hundreds_digit = hundreds_table [unfolded list_all_iff, THEN bspec, OF digits_list]
lemmas tens_digit = tens_table [unfolded list_all_iff, THEN bspec, OF digits_list]
lemmas ones_digit = ones_table [unfolded list_all_iff, THEN bspec, OF digits_list]

lemma romanValue_digits:
  assumes "b < 10" "c < 10" "d < 10"
  shows "romanValue (replicate k CHR ''M'' @ ROMAN ! b @ ROMAN ! (10 + c) @ ROMAN ! (20 + d)) =
     1000 * int k + 100 * int b + 10 * int c + int d"
proof -
  let ?H = "ROMAN ! b" and ?T = "ROMAN ! (10 + c)" and ?O = "ROMAN ! (20 + d)"
  note H = hundreds_digit [OF assms(1)] and T = tens_digit [OF assms(2)]
    and O = ones_digit [OF assms(3)]
  have TO: "romanValue (?T @ ?O) = romanValue ?T + romanValue ?O"
  proof (rule romanValue_append)
    show "?T = [] \<or> ?O = [] \<or> symbolValue (hd ?O) \<le> symbolValue (last ?T)"
      using T O by linarith
  qed
  have hdTO: "?T @ ?O = [] \<or> symbolValue (hd (?T @ ?O)) \<le> 50"
  proof (cases "?T = []")
    case True
    then show ?thesis using O by auto
  next
    case False
    then show ?thesis using T by simp
  qed
  have HTO: "romanValue (?H @ ?T @ ?O) = romanValue ?H + romanValue (?T @ ?O)"
  proof (rule romanValue_append)
    show "?H = [] \<or> ?T @ ?O = [] \<or> symbolValue (hd (?T @ ?O)) \<le> symbolValue (last ?H)"
      using H hdTO by linarith
  qed
  have M: "romanValue (replicate k CHR ''M'' @ ?H @ ?T @ ?O) =
      romanValue (replicate k CHR ''M'') + romanValue (?H @ ?T @ ?O)"
  proof (cases k)
    case 0
    then show ?thesis by simp
  next
    case (Suc j)
    then have "symbolValue (last (replicate k CHR ''M'')) = 1000"
      by (simp add: symbolValue_def)
    then show ?thesis
      using symbolValue_bounds(2) [of "hd (?H @ ?T @ ?O)"]
      by (intro romanValue_append) simp
  qed
  show ?thesis using H T O by (simp add: M HTO TO romanValue_Ms)
qed

subsection \<open>The numeral is of the classic notation\<close>

lemma rem_Lit: "rest \<in> set (remainders False (Lit w) (w @ rest))"
  by (simp add: sameText_def)

lemma rem_Cat:
  "m \<in> set (remainders ic a s) \<Longrightarrow> r \<in> set (remainders ic b m) \<Longrightarrow>
   r \<in> set (remainders ic (Cat a b) s)"
  by auto

lemma rem_Opt_skip: "s \<in> set (remainders ic (Opt a) s)"
  by simp

lemma rem_Opt_take: "r \<in> set (remainders ic a s) \<Longrightarrow> r \<in> set (remainders ic (Opt a) s)"
  by simp

lemma rem_upTo:
  "k \<le> n \<Longrightarrow> rest \<in> set (remainders False (upTo n (Lit w)) (concat (replicate k w) @ rest))"
proof (induction n arbitrary: k)
  case 0
  then show ?case by (simp add: sameText_def)
next
  case (Suc n)
  show ?case
  proof (cases k)
    case 0
    then show ?thesis by simp
  next
    case (Suc j)
    then have "j \<le> n" using Suc.prems by simp
    then have "rest \<in> set (remainders False (upTo n (Lit w)) (concat (replicate j w) @ rest))"
      by (rule Suc.IH)
    then show ?thesis using Suc by (simp add: sameText_def)
  qed
qed

lemma rem_group_ones:
  "j \<le> 3 \<Longrightarrow>
   rest \<in> set (remainders False (romanGroup ten five one) (concat (replicate j one) @ rest))"
  unfolding romanGroup_def
  using rem_upTo [of j 3 rest one] by simp

lemma rem_group_five:
  "j \<le> 3 \<Longrightarrow>
   rest \<in> set (remainders False (romanGroup ten five one)
      (five @ concat (replicate j one) @ rest))"
  unfolding romanGroup_def
  using rem_upTo [of j 3 rest one] by (simp add: sameText_def)

lemma rem_group_four:
  "rest \<in> set (remainders False (romanGroup ten five one) ((one @ five) @ rest))"
  unfolding romanGroup_def using rem_Lit [of rest "one @ five"] by simp

lemma rem_group_nine:
  "rest \<in> set (remainders False (romanGroup ten five one) ((one @ ten) @ rest))"
  unfolding romanGroup_def using rem_Lit [of rest "one @ ten"] by simp

lemma group_words:
  assumes "w \<in> set [Nil, one, one @ one, one @ one @ one, one @ five, five, five @ one,
     five @ one @ one, five @ one @ one @ one, one @ ten]"
  shows "rest \<in> set (remainders False (romanGroup ten five one) (w @ rest))"
proof -
  note ones = rem_group_ones [of _ rest ten five one]
  note five = rem_group_five [of _ rest ten five one]
  have "[] @ rest \<in> set (remainders False (romanGroup ten five one) ([] @ rest))" using ones [of 0] by simp
  moreover have "rest \<in> set (remainders False (romanGroup ten five one) (one @ rest))" using ones [of 1] by simp
  moreover have "rest \<in> set (remainders False (romanGroup ten five one) ((one @ one) @ rest))" using ones [of 2] by (simp add: numeral_2_eq_2)
  moreover have "rest \<in> set (remainders False (romanGroup ten five one) ((one @ one @ one) @ rest))" using ones [of 3] by (simp add: numeral_3_eq_3)
  moreover have "rest \<in> set (remainders False (romanGroup ten five one) (five @ rest))" using five [of 0] by simp
  moreover have "rest \<in> set (remainders False (romanGroup ten five one) ((five @ one) @ rest))" using five [of 1] by simp
  moreover have "rest \<in> set (remainders False (romanGroup ten five one) ((five @ one @ one) @ rest))" using five [of 2] by (simp add: numeral_2_eq_2)
  moreover have "rest \<in> set (remainders False (romanGroup ten five one) ((five @ one @ one @ one) @ rest))" using five [of 3] by (simp add: numeral_3_eq_3)
  moreover note rem_group_four [of rest ten five one] rem_group_nine [of rest ten five one]
  ultimately show ?thesis using assms by (elim disjE | simp only: set_simps insert_iff empty_iff append_Nil)+ 
qed

lemma hundreds_words:
  "list_all (\<lambda>b. ROMAN ! b \<in> set [Nil, ''C'', ''C'' @ ''C'', ''C'' @ ''C'' @ ''C'', ''C'' @ ''D'', ''D'',
       ''D'' @ ''C'', ''D'' @ ''C'' @ ''C'', ''D'' @ ''C'' @ ''C'' @ ''C'', ''C'' @ ''M''])
     [0, 1, 2, 3, 4, 5, 6, 7, 8, 9]"
  by code_simp

lemma tens_words:
  "list_all (\<lambda>c. ROMAN ! (10 + c) \<in> set [Nil, ''X'', ''X'' @ ''X'', ''X'' @ ''X'' @ ''X'', ''X'' @ ''L'',
       ''L'', ''L'' @ ''X'', ''L'' @ ''X'' @ ''X'', ''L'' @ ''X'' @ ''X'' @ ''X'', ''X'' @ ''C''])
     [0, 1, 2, 3, 4, 5, 6, 7, 8, 9]"
  by code_simp

lemma ones_words:
  "list_all (\<lambda>d. ROMAN ! (20 + d) \<in> set [Nil, ''I'', ''I'' @ ''I'', ''I'' @ ''I'' @ ''I'', ''I'' @ ''V'',
       ''V'', ''V'' @ ''I'', ''V'' @ ''I'' @ ''I'', ''V'' @ ''I'' @ ''I'' @ ''I'', ''I'' @ ''X''])
     [0, 1, 2, 3, 4, 5, 6, 7, 8, 9]"
  by code_simp

lemmas hundreds_match =
  group_words [OF hundreds_words [unfolded list_all_iff, THEN bspec, OF digits_list]]
lemmas tens_match =
  group_words [OF tens_words [unfolded list_all_iff, THEN bspec, OF digits_list]]
lemmas ones_match =
  group_words [OF ones_words [unfolded list_all_iff, THEN bspec, OF digits_list]]

lemma matches_digits:
  assumes "k \<le> 4" "b < 10" "c < 10" "d < 10"
  shows "matchesWhole False ROMAN_PATTERN
     (replicate k CHR ''M'' @ ROMAN ! b @ ROMAN ! (10 + c) @ ROMAN ! (20 + d))"
proof -
  let ?H = "ROMAN ! b" and ?T = "ROMAN ! (10 + c)" and ?O = "ROMAN ! (20 + d)"
  have rep: "concat (replicate j ''M'') = replicate j CHR ''M''" for j
    by (induction j) simp_all
  have 1: "?H @ ?T @ ?O \<in> set (remainders False (upTo 4 (Lit ''M''))
      (replicate k CHR ''M'' @ ?H @ ?T @ ?O))"
    using rem_upTo [OF assms(1), of "?H @ ?T @ ?O" "''M''"] by (simp only: rep)
  have 2: "?T @ ?O \<in> set (remainders False (romanGroup ''M'' ''D'' ''C'') (?H @ ?T @ ?O))"
    by (rule hundreds_match [OF assms(2)])
  have 3: "?O \<in> set (remainders False (romanGroup ''C'' ''L'' ''X'') (?T @ ?O))"
    by (rule tens_match [OF assms(3)])
  have 4: "[] \<in> set (remainders False (romanGroup ''X'' ''V'' ''I'') ?O)"
    using ones_match [OF assms(4), of "[]"] by simp
  show ?thesis
    unfolding matchesWhole_def ROMAN_PATTERN_def
    by (rule rem_Cat [OF 1] rem_Cat [OF 2] rem_Cat [OF 3] 4)+
qed

subsection \<open>The round trip\<close>

lemma decimal_decomposition:
  "int m = 1000 * int (m div 1000) + 100 * int (m div 100 mod 10) + 10 * int (m div 10 mod 10)
     + int (m mod 10)"
proof -
  have a: "m = 10 * (m div 10) + m mod 10" by simp
  have b: "m div 10 = 10 * (m div 100) + m div 10 mod 10"
    using div_mult_mod_eq [of "m div 10" 10] by (simp add: div_mult2_eq [symmetric])
  have c: "m div 100 = 10 * (m div 1000) + m div 100 mod 10"
    using div_mult_mod_eq [of "m div 100" 10] by (simp add: div_mult2_eq [symmetric])
  have "m = 1000 * (m div 1000) + 100 * (m div 100 mod 10) + 10 * (m div 10 mod 10) + m mod 10"
    using a b c by linarith
  then have "int m = int (1000 * (m div 1000) + 100 * (m div 100 mod 10) + 10 * (m div 10 mod 10) + m mod 10)"
    by simp
  then show ?thesis by (simp only: of_nat_add of_nat_mult of_nat_numeral)
qed


text \<open>
  C5. For every \<open>n\<close> from 1 to 3999 \<open>toRomanUpper\<close> returns a numeral of the classic
  subtractive notation (the reverse parse accepts it) whose value is \<open>n\<close>; \<open>toRomanLower\<close>
  returns the same numeral in lower case.
\<close>

theorem roman_round_trip:
  assumes "1 \<le> n" "n \<le> 3999"
  shows "\<exists>s. toRomanUpper n = Inr s \<and> toRomanLower n = Inr (toLowerCase s) \<and>
     parseRoman s = Some n"
proof -
  let ?m = "nat n"
  let ?s = "replicate (?m div 1000) CHR ''M'' @ ROMAN ! (?m div 100 mod 10) @
          ROMAN ! (10 + ?m div 10 mod 10) @ ROMAN ! (20 + ?m mod 10)"
  have up: "toRomanUpper n = Inr ?s"
    using assms by (intro toRomanUpper_below_10000) simp_all
  have k: "?m div 1000 \<le> 4" using assms by simp
  have val: "romanValue ?s = n"
    using decimal_decomposition [of ?m] assms(1) by (simp add: romanValue_digits)
  have ne: "?s \<noteq> []"
  proof
    assume "?s = []"
    then have "romanValue ?s = 0" by (simp only: romanValue.simps)
    then show False using val assms(1) by simp
  qed
  have "matchesWhole False ROMAN_PATTERN ?s"
    using k by (intro matches_digits) simp_all
  then have "parseRoman ?s = Some n"
    using ne val by (simp only: parseRoman_def) simp
  then show ?thesis
    using up by (simp add: toRomanLower_def)
qed

theorem roman_round_trip_witness:
  "(1::int) \<le> 1994 \<and> (1994::int) \<le> 3999 \<and> toRomanUpper 1994 = Inr ''MCMXCIV'' \<and>
   toRomanLower 1994 = Inr ''mcmxciv'' \<and> parseRoman ''MCMXCIV'' = Some 1994"
proof -
  obtain s where s: "toRomanUpper 1994 = Inr s" "toRomanLower 1994 = Inr (toLowerCase s)"
    "parseRoman s = Some 1994"
    using roman_round_trip [of 1994] by auto
  have v: "toRomanUpper 1994 = Inr ''MCMXCIV''" by code_simp
  have l: "toLowerCase ''MCMXCIV'' = ''mcmxciv''" by code_simp
  from s(1) v have "s = ''MCMXCIV''" by simp
  with s v l show ?thesis by simp
qed

section \<open>Label lists with one non-blank label\<close>

subsection \<open>What a pattern matches\<close>

lemma sameText_canon: "sameText ic u w = (canon ic u = canon ic w)"
  by (simp add: sameText_def canon_def)

lemma canon_simps:
  "length (canon ic w) = length w" "canon ic (u @ v) = canon ic u @ canon ic v"
  "canon ic (take n w) = take n (canon ic w)" "canon ic [] = []"
  by (simp_all add: canon_def take_map)

lemma remainders_words:
  "rest \<in> set (remainders ic r s) \<longleftrightarrow>
     (\<exists>w\<in>set (wordsOf r). length w \<le> length s \<and> sameText ic (take (length w) s) w \<and>
        rest = drop (length w) s)"
proof (induction r arbitrary: s rest)
  case (Lit w)
  show ?case by auto
next
  case (Alt a b)
  show ?case by (auto simp: Alt.IH)
next
  case (Cat a b)
  show ?case
  proof
    assume "rest \<in> set (remainders ic (Cat a b) s)"
    then obtain m where m: "m \<in> set (remainders ic a s)" "rest \<in> set (remainders ic b m)"
      by auto
    from m(1) obtain u where u: "u \<in> set (wordsOf a)" "length u \<le> length s"
      "sameText ic (take (length u) s) u" "m = drop (length u) s"
      unfolding Cat.IH(1) by blast
    from m(2) obtain v where v: "v \<in> set (wordsOf b)" "length v \<le> length m"
      "sameText ic (take (length v) m) v" "rest = drop (length v) m"
      unfolding Cat.IH(2) by blast
    have len: "length (u @ v) \<le> length s" using u(2,4) v(2) by simp
    have tk: "take (length (u @ v)) s = take (length u) s @ take (length v) m"
      using u(4) by (simp add: take_add)
    have same: "sameText ic (take (length (u @ v)) s) (u @ v)"
      using u(3) v(3) unfolding tk sameText_canon by (simp add: canon_simps)
    have dr: "rest = drop (length (u @ v)) s"
      using v(4) u(4) by (simp add: add.commute)
    have "u @ v \<in> set (wordsOf (Cat a b))" using u(1) v(1) by auto
    then show "\<exists>w\<in>set (wordsOf (Cat a b)). length w \<le> length s \<and>
        sameText ic (take (length w) s) w \<and> rest = drop (length w) s"
      using len same dr by blast
  next
    assume "\<exists>w\<in>set (wordsOf (Cat a b)). length w \<le> length s \<and>
        sameText ic (take (length w) s) w \<and> rest = drop (length w) s"
    then obtain w where w: "w \<in> set (wordsOf (Cat a b))" "length w \<le> length s"
      "sameText ic (take (length w) s) w" "rest = drop (length w) s" by blast
    from w(1) obtain u v where uv: "u \<in> set (wordsOf a)" "v \<in> set (wordsOf b)" "w = u @ v"
      by auto
    let ?m = "drop (length u) s"
    have tk: "take (length (u @ v)) s = take (length u) s @ take (length v) ?m"
      by (simp add: take_add)
    have lu: "length u \<le> length s" and lv: "length v \<le> length ?m"
      using w(2) uv(3) by simp_all
    have eq: "canon ic (take (length u) s) @ canon ic (take (length v) ?m) =
        canon ic u @ canon ic v"
      using w(3) [unfolded uv(3) tk sameText_canon] by (simp only: canon_simps)
    have "length (canon ic (take (length u) s)) = length (canon ic u)"
      using lu by (simp add: canon_simps)
    with eq have su: "canon ic (take (length u) s) = canon ic u"
      and sv: "canon ic (take (length v) ?m) = canon ic v"
      by simp_all
    have m: "?m \<in> set (remainders ic a s)"
      unfolding Cat.IH(1) using uv(1) lu su by (auto simp: sameText_canon)
    have "rest = drop (length v) ?m" using w(4) uv(3) by (simp add: add.commute)
    then have "rest \<in> set (remainders ic b ?m)"
      unfolding Cat.IH(2) using uv(2) lv sv by (auto simp: sameText_canon)
    then show "rest \<in> set (remainders ic (Cat a b) s)" using m by auto
  qed
next
  case (Opt a)
  show ?case by (auto simp: Opt.IH sameText_def)
qed

lemma matchesWhole_words:
  "matchesWhole ic r s \<longleftrightarrow> (\<exists>w\<in>set (wordsOf r). sameText ic s w)"
proof -
  have "matchesWhole ic r s \<longleftrightarrow>
      (\<exists>w\<in>set (wordsOf r). length w \<le> length s \<and> sameText ic (take (length w) s) w \<and>
         [] = drop (length w) s)"
    unfolding matchesWhole_def by (rule remainders_words)
  also have "\<dots> \<longleftrightarrow> (\<exists>w\<in>set (wordsOf r). sameText ic s w)"
  proof (intro bex_cong refl)
    fix w
    have l: "sameText ic s w \<Longrightarrow> length s = length w"
      unfolding sameText_canon using canon_simps(1) by metis
    show "(length w \<le> length s \<and> sameText ic (take (length w) s) w \<and> [] = drop (length w) s)
        = sameText ic s w"
      using l by auto
  qed
  finally show ?thesis .
qed

subsection \<open>The words of the Roman pattern\<close>

lemma ROMAN_length: "length ROMAN = 30"
  by (simp add: ROMAN_def)

lemma words_thousands:
  "set (wordsOf (upTo 4 (Lit ''M''))) = set (map (\<lambda>k. replicate k CHR ''M'') [0, 1, 2, 3, 4])"
  by code_simp

lemma words_hundreds: "set (wordsOf (romanGroup ''M'' ''D'' ''C'')) = set (take 10 ROMAN)"
  by code_simp

lemma words_tens: "set (wordsOf (romanGroup ''C'' ''L'' ''X'')) = set (take 10 (drop 10 ROMAN))"
  by code_simp

lemma words_ones: "set (wordsOf (romanGroup ''X'' ''V'' ''I'')) = set (take 10 (drop 20 ROMAN))"
  by code_simp

lemma in_thousands:
  "u \<in> set (wordsOf (upTo 4 (Lit ''M''))) \<longleftrightarrow> (\<exists>k\<le>4. u = replicate k CHR ''M'')"
proof -
  have "(\<exists>k\<le>4. u = replicate k CHR ''M'') \<longleftrightarrow>
      (\<exists>k\<in>set [0, 1, 2, 3, 4::nat]. u = replicate k CHR ''M'')"
  proof (intro iffI)
    assume "\<exists>k\<le>4. u = replicate k CHR ''M''"
    then obtain k where k: "k \<le> 4" "u = replicate k CHR ''M''" by blast
    from k(1) have "k \<in> set [0, 1, 2, 3, 4::nat]" by (simp add: le_Suc_eq numeral_eq_Suc)
    with k(2) show "\<exists>k\<in>set [0, 1, 2, 3, 4::nat]. u = replicate k CHR ''M''" by blast
  next
    assume "\<exists>k\<in>set [0, 1, 2, 3, 4::nat]. u = replicate k CHR ''M''"
    then obtain k where k: "k \<in> set [0, 1, 2, 3, 4::nat]" "u = replicate k CHR ''M''" by blast
    from k(1) have "k \<le> 4" by auto
    with k(2) show "\<exists>k\<le>4. u = replicate k CHR ''M''" by blast
  qed
  then show ?thesis unfolding words_thousands by auto
qed

lemma in_take_drop:
  assumes "n + 10 \<le> length xs"
  shows "w \<in> set (take 10 (drop n xs)) \<longleftrightarrow> (\<exists>i<10. w = xs ! (n + i))"
proof -
  have l: "length (take 10 (drop n xs)) = 10" using assms by simp
  have "w \<in> set (take 10 (drop n xs)) \<longleftrightarrow> (\<exists>i<10. take 10 (drop n xs) ! i = w)"
    unfolding in_set_conv_nth l by simp
  also have "\<dots> \<longleftrightarrow> (\<exists>i<10. w = xs ! (n + i))"
    using assms by (auto simp: nth_take)
  finally show ?thesis .
qed

lemma in_hundreds:
  "w \<in> set (wordsOf (romanGroup ''M'' ''D'' ''C'')) \<longleftrightarrow> (\<exists>b<10. w = ROMAN ! b)"
  using in_take_drop [of 0 ROMAN w] by (simp add: words_hundreds ROMAN_length)

lemma in_tens:
  "w \<in> set (wordsOf (romanGroup ''C'' ''L'' ''X'')) \<longleftrightarrow> (\<exists>c<10. w = ROMAN ! (10 + c))"
  using in_take_drop [of 10 ROMAN w] by (simp add: words_tens ROMAN_length)

lemma in_ones:
  "w \<in> set (wordsOf (romanGroup ''X'' ''V'' ''I'')) \<longleftrightarrow> (\<exists>d<10. w = ROMAN ! (20 + d))"
  using in_take_drop [of 20 ROMAN w] by (simp add: words_ones ROMAN_length)

lemma words_Cat:
  "w \<in> set (wordsOf (Cat a b)) \<longleftrightarrow> (\<exists>u\<in>set (wordsOf a). \<exists>v\<in>set (wordsOf b). w = u @ v)"
  by auto

lemma in_ROMAN_PATTERN:
  "w \<in> set (wordsOf ROMAN_PATTERN) \<longleftrightarrow>
     (\<exists>k b c d. k \<le> 4 \<and> b < 10 \<and> c < 10 \<and> d < 10 \<and>
        w = replicate k CHR ''M'' @ ROMAN ! b @ ROMAN ! (10 + c) @ ROMAN ! (20 + d))"
proof -
  let ?H = "romanGroup ''M'' ''D'' ''C''" and ?T = "romanGroup ''C'' ''L'' ''X''"
    and ?O = "romanGroup ''X'' ''V'' ''I''"
  have to: "x \<in> set (wordsOf (Cat ?T ?O)) \<longleftrightarrow>
      (\<exists>c d. c < 10 \<and> d < 10 \<and> x = ROMAN ! (10 + c) @ ROMAN ! (20 + d))" for x
    unfolding words_Cat Bex_def in_tens in_ones by blast
  have hto: "x \<in> set (wordsOf (Cat ?H (Cat ?T ?O))) \<longleftrightarrow>
      (\<exists>b c d. b < 10 \<and> c < 10 \<and> d < 10 \<and>
         x = ROMAN ! b @ ROMAN ! (10 + c) @ ROMAN ! (20 + d))" for x
    unfolding words_Cat [of x ?H] Bex_def in_hundreds to by blast
  show ?thesis
    unfolding ROMAN_PATTERN_def words_Cat [of w "upTo 4 (Lit ''M'')"] Bex_def in_thousands hto
    by blast
qed

lemma upper_ROMAN: "list_all (\<lambda>w. map upperChar w = w) ROMAN"
  by code_simp

lemma upper_entry: "i < 30 \<Longrightarrow> map upperChar (ROMAN ! i) = ROMAN ! i"
  using upper_ROMAN by (simp add: list_all_length ROMAN_length)

lemma upper_M: "map upperChar (replicate k CHR ''M'') = replicate k CHR ''M''"
proof -
  have "upperChar CHR ''M'' = CHR ''M''" by code_simp
  then show ?thesis by simp
qed

lemma div_mod_step:
  fixes q x r :: nat
  assumes "r < q"
  shows "(q * x + r) div q = x" "(q * x + r) mod q = r"
  using assms by simp_all

lemma digits_of_sum:
  fixes k b c d m :: nat
  assumes "b < 10" "c < 10" "d < 10" "m = 1000 * k + 100 * b + 10 * c + d"
  shows "m div 1000 = k \<and> m div 100 mod 10 = b \<and> m div 10 mod 10 = c \<and> m mod 10 = d"
proof -
  have m1: "m = 10 * (100 * k + 10 * b + c) + d" using assms(4) by simp
  have 1: "m mod 10 = d" and q1: "m div 10 = 100 * k + 10 * b + c"
    unfolding m1 using div_mod_step [OF assms(3)] by blast+
  have m2: "m div 10 = 10 * (10 * k + b) + c" using q1 by simp
  have 2: "m div 10 mod 10 = c" and q2: "m div 10 div 10 = 10 * k + b"
    unfolding m2 using div_mod_step [OF assms(2)] by blast+
  have 3: "m div 10 div 10 mod 10 = b" and q3: "m div 10 div 10 div 10 = k"
    unfolding q2 using div_mod_step [OF assms(1), of k] by blast+
  have e: "m div 10 div 10 = m div 100" "m div 10 div 10 div 10 = m div 1000"
    by (simp_all add: div_mult2_eq [symmetric])
  show ?thesis using 1 2 3 q3 unfolding e by simp
qed

lemma roman_pattern_numeral:
  "matchesWhole True ROMAN_PATTERN l \<longleftrightarrow>
     (\<exists>n. 0 \<le> n \<and> n \<le> 4999 \<and> toRomanUpper n = Inr (map upperChar l))"
proof
  assume "matchesWhole True ROMAN_PATTERN l"
  then obtain w where w: "w \<in> set (wordsOf ROMAN_PATTERN)" "map upperChar l = map upperChar w"
    unfolding matchesWhole_words by (auto simp: sameText_def)
  from w(1) obtain k b c d where kbcd: "k \<le> 4" "b < 10" "c < 10" "d < 10"
    "w = replicate k CHR ''M'' @ ROMAN ! b @ ROMAN ! (10 + c) @ ROMAN ! (20 + d)"
    unfolding in_ROMAN_PATTERN by blast
  have "b < 30" "10 + c < 30" "20 + d < 30" using kbcd(2-4) by simp_all
  then have up: "map upperChar w = w"
    unfolding kbcd(5) by (simp only: map_append upper_M upper_entry)
  define m where "m = 1000 * k + 100 * b + 10 * c + d"
  have dg: "m div 1000 = k \<and> m div 100 mod 10 = b \<and> m div 10 mod 10 = c \<and> m mod 10 = d"
    using kbcd(2-4) m_def by (rule digits_of_sum)
  have range: "0 \<le> int m" "int m \<le> 4999" "int m < 10000"
    using kbcd(1-4) unfolding m_def by simp_all
  have "toRomanUpper (int m) = Inr w"
    using toRomanUpper_below_10000 [OF range(1) range(3)] dg by (simp add: kbcd(5))
  then have "toRomanUpper (int m) = Inr (map upperChar l)" using w(2) up by simp
  then show "\<exists>n. 0 \<le> n \<and> n \<le> 4999 \<and> toRomanUpper n = Inr (map upperChar l)"
    using range by blast
next
  assume "\<exists>n. 0 \<le> n \<and> n \<le> 4999 \<and> toRomanUpper n = Inr (map upperChar l)"
  then obtain n where n: "0 \<le> n" "n \<le> 4999" "toRomanUpper n = Inr (map upperChar l)"
    by blast
  let ?m = "nat n"
  let ?w = "replicate (?m div 1000) CHR ''M'' @ ROMAN ! (?m div 100 mod 10) @
      ROMAN ! (10 + ?m div 10 mod 10) @ ROMAN ! (20 + ?m mod 10)"
  have "toRomanUpper n = Inr ?w"
    using n(1,2) by (intro toRomanUpper_below_10000) simp_all
  then have l: "map upperChar l = ?w" using n(3) by simp
  have k: "?m div 1000 \<le> 4" using n(1,2) by simp
  have mem: "?w \<in> set (wordsOf ROMAN_PATTERN)"
    unfolding in_ROMAN_PATTERN using k
    by (intro exI [of _ "?m div 1000"] exI [of _ "?m div 100 mod 10"]
        exI [of _ "?m div 10 mod 10"] exI [of _ "?m mod 10"]) simp
  have fixed: "map upperChar ?w = ?w"
  proof -
    have "?m div 100 mod 10 < 30" "10 + ?m div 10 mod 10 < 30" "20 + ?m mod 10 < 30"
      by simp_all
    then show ?thesis by (simp only: map_append upper_M upper_entry)
  qed
  have "sameText True l ?w" unfolding sameText_def using l fixed by (simp only: if_True)
  with mem show "matchesWhole True ROMAN_PATTERN l"
    unfolding matchesWhole_words by (rule bexI [rotated])
qed

lemma in_set_codes: "c \<in> set xs \<longleftrightarrow> (of_char c :: nat) \<in> set (map of_char xs)"
  by (auto simp: image_iff)

lemma codes_digits: "map of_char ''0123456789'' = [48..<58::nat]"
  by code_simp

lemma codes_lower: "map of_char ''abcdefghijklmnopqrstuvwxyz'' = [97..<123::nat]"
  by code_simp

lemma codes_upper: "map of_char ''ABCDEFGHIJKLMNOPQRSTUVWXYZ'' = [65..<91::nat]"
  by code_simp

lemma of_char_upperChar:
  "(of_char (upperChar c) :: nat) =
     (if 97 \<le> (of_char c :: nat) \<and> (of_char c :: nat) \<le> 122 then of_char c - 32 else of_char c)"
  by (auto simp: upperChar_def Let_def)

lemma isDigitChar_iff: "isDigitChar c \<longleftrightarrow> c \<in> set ''0123456789''"
  unfolding in_set_codes [of c "''0123456789''"] codes_digits set_upt atLeastLessThan_iff
    isDigitChar_def
  by linarith

lemma lower_iff:
  "c \<in> set ''abcdefghijklmnopqrstuvwxyz'' \<longleftrightarrow> 97 \<le> (of_char c :: nat) \<and> (of_char c :: nat) \<le> 122"
  unfolding in_set_codes [of c "''abcdefghijklmnopqrstuvwxyz''"] codes_lower set_upt
    atLeastLessThan_iff
  by linarith

lemma upper_iff:
  "c \<in> set ''ABCDEFGHIJKLMNOPQRSTUVWXYZ'' \<longleftrightarrow> 65 \<le> (of_char c :: nat) \<and> (of_char c :: nat) \<le> 90"
  unfolding in_set_codes [of c "''ABCDEFGHIJKLMNOPQRSTUVWXYZ''"] codes_upper set_upt
    atLeastLessThan_iff
  by linarith

lemma isLetterChar_iff:
  "isLetterChar c \<longleftrightarrow>
     c \<in> set ''abcdefghijklmnopqrstuvwxyz'' \<or> c \<in> set ''ABCDEFGHIJKLMNOPQRSTUVWXYZ''"
  unfolding lower_iff upper_iff by (auto simp: isLetterChar_def Let_def of_char_upperChar)

lemma upperChar_other: "c \<notin> set ''abcdefghijklmnopqrstuvwxyz'' \<Longrightarrow> upperChar c = c"
  unfolding lower_iff by (auto simp: upperChar_def Let_def)

lemma upperChar_letters:
  "map upperChar ''abcdefghijklmnopqrstuvwxyz'' = ''ABCDEFGHIJKLMNOPQRSTUVWXYZ''"
  by code_simp

lemma isValidLabel_iff:
  "isValidLabel l \<longleftrightarrow>
     (l \<noteq> [] \<and> set l \<subseteq> set ''0123456789'') \<or>
     (\<exists>n. 0 \<le> n \<and> n \<le> 4999 \<and> toRomanUpper n = Inr (map upperChar l)) \<or>
     (\<exists>c. l = [c] \<and>
        (c \<in> set ''abcdefghijklmnopqrstuvwxyz'' \<or> c \<in> set ''ABCDEFGHIJKLMNOPQRSTUVWXYZ''))"
proof -
  have d: "list_all isDigitChar l \<longleftrightarrow> set l \<subseteq> set ''0123456789''"
    unfolding list_all_iff isDigitChar_iff by blast
  have s: "(length l = 1 \<and> isLetterChar (l ! 0)) \<longleftrightarrow>
      (\<exists>c. l = [c] \<and>
        (c \<in> set ''abcdefghijklmnopqrstuvwxyz'' \<or> c \<in> set ''ABCDEFGHIJKLMNOPQRSTUVWXYZ''))"
    unfolding isLetterChar_iff [symmetric] by (cases l) auto
  show ?thesis
    unfolding isValidLabel_def d s roman_pattern_numeral by auto
qed

lemma isValidLabel_blank: "isValidLabel []"
  by code_simp

subsection \<open>The lists that are accepted\<close>

lemma areValidLabels_shapes:
  assumes one: "length (filter (\<lambda>label. label \<noteq> []) labels) = 1"
  shows "areValidLabels labels =
     (\<exists>x. x \<noteq> [] \<and> (labels = [x, Nil] \<and> isValidLabel x \<or> labels = [Nil, x]))"
proof -
  have A: "areValidLabels labels = (length labels = 2 \<and> isValidLabel (labels ! 0))"
    using one by (simp add: areValidLabels_def)
  show ?thesis
  proof (cases "length labels = 2")
    case True
    then obtain a b where ab: "labels = [a, b]"
      by (auto simp: length_Suc_conv numeral_2_eq_2)
    have A': "areValidLabels [a, b] = isValidLabel a" using A ab by simp
    have "(a \<noteq> [] \<and> b = []) \<or> (a = [] \<and> b \<noteq> [])"
      using one unfolding ab by (auto split: if_splits)
    then show ?thesis
    proof
      assume "a \<noteq> [] \<and> b = []"
      then show ?thesis unfolding ab A' by auto
    next
      assume "a = [] \<and> b \<noteq> []"
      then show ?thesis unfolding ab A' using isValidLabel_blank by auto
    qed
  next
    case False
    then show ?thesis unfolding A by auto
  qed
qed

text \<open>
  C10, as the code has it. When exactly one label of the list is not blank,
  \<open>areValidLabels\<close> holds exactly when the list is a valid label followed by a blank one, or a
  blank label followed by any non-blank one; so a list of three or more labels with one
  non-blank label is rejected, and so are the empty list and a list of blank labels. A
  label is valid when it is a non-empty run of the digits 0 to 9, or, letters taken in
  upper case, the numeral that \<open>toRomanUpper\<close> writes for a number from 0 to 4999 (for 0 that
  is the empty word, so the blank label is valid), or one letter from \<open>a\<close> to \<open>z\<close> or \<open>A\<close> to
  \<open>Z\<close>. Taking a letter in upper case maps \<open>a\<close> to \<open>z\<close> onto \<open>A\<close> to \<open>Z\<close> and leaves every
  other character as it is.
\<close>

theorem areValidLabels_one_nonblank:
  "(length (filter (\<lambda>label. label \<noteq> []) labels) = 1 \<longrightarrow>
      areValidLabels labels =
        (\<exists>x. x \<noteq> [] \<and> (labels = [x, Nil] \<and> isValidLabel x \<or> labels = [Nil, x]))) \<and>
   (length (filter (\<lambda>label. label \<noteq> []) labels) = 1 \<and> 3 \<le> length labels \<longrightarrow>
      \<not> areValidLabels labels) \<and>
   (filter (\<lambda>label. label \<noteq> []) labels = [] \<longrightarrow> \<not> areValidLabels labels) \<and>
   isValidLabel l =
     ((l \<noteq> [] \<and> set l \<subseteq> set ''0123456789'') \<or>
      (\<exists>n. 0 \<le> n \<and> n \<le> 4999 \<and> toRomanUpper n = Inr (map upperChar l)) \<or>
      (\<exists>c. l = [c] \<and>
         (c \<in> set ''abcdefghijklmnopqrstuvwxyz'' \<or> c \<in> set ''ABCDEFGHIJKLMNOPQRSTUVWXYZ''))) \<and>
   map upperChar ''abcdefghijklmnopqrstuvwxyz'' = ''ABCDEFGHIJKLMNOPQRSTUVWXYZ'' \<and>
   (c \<notin> set ''abcdefghijklmnopqrstuvwxyz'' \<longrightarrow> upperChar c = c)"
proof -
  have 2: "\<not> areValidLabels labels"
    if "length (filter (\<lambda>label. label \<noteq> []) labels) = 1 \<and> 3 \<le> length labels"
    using that by (simp add: areValidLabels_def)
  have 3: "\<not> areValidLabels labels" if "filter (\<lambda>label. label \<noteq> []) labels = []"
    using that by (simp add: areValidLabels_def)
  show ?thesis
    using areValidLabels_shapes [of labels] 2 3 isValidLabel_iff [of l] upperChar_letters
      upperChar_other [of c]
    by blast
qed

theorem areValidLabels_one_nonblank_witness:
  "length (filter (\<lambda>label. label \<noteq> []) [''xiv'', Nil]) = 1 \<and> areValidLabels [''xiv'', Nil] \<and>
   length (filter (\<lambda>label. label \<noteq> []) [''IIII'', Nil]) = 1 \<and> \<not> areValidLabels [''IIII'', Nil] \<and>
   length (filter (\<lambda>label. label \<noteq> []) [Nil, ''foo'']) = 1 \<and> areValidLabels [Nil, ''foo''] \<and>
   length (filter (\<lambda>label. label \<noteq> []) [''A'', Nil, Nil]) = 1 \<and>
   3 \<le> length [''A'', Nil, Nil] \<and> \<not> areValidLabels [''A'', Nil, Nil] \<and>
   filter (\<lambda>label. label \<noteq> []) [Nil, Nil] = [] \<and> \<not> areValidLabels [Nil, Nil] \<and>
   isValidLabel ''2024'' \<and> toRomanUpper 14 = Inr (map upperChar ''xiv'') \<and> isValidLabel ''xiv'' \<and>
   CHR ''5'' \<notin> set ''abcdefghijklmnopqrstuvwxyz'' \<and> upperChar CHR ''5'' = CHR ''5''"
proof -
  note t = areValidLabels_one_nonblank
  have r: "toRomanUpper 14 = Inr (map upperChar ''xiv'')" by code_simp
  have ex: "\<exists>n. 0 \<le> n \<and> n \<le> 4999 \<and> toRomanUpper n = Inr (map upperChar ''xiv'')"
    using r by (intro exI [of _ 14]) simp
  have xiv: "isValidLabel ''xiv''"
    by (rule iffD2 [OF t [of Nil "''xiv''" "CHR ''5''", THEN conjunct2, THEN conjunct2,
            THEN conjunct2, THEN conjunct1]], rule disjI2, rule disjI1, rule ex)
  have dg: "''2024'' \<noteq> [] \<and> set ''2024'' \<subseteq> set ''0123456789''" by simp
  have d: "isValidLabel ''2024''"
    by (rule iffD2 [OF t [of Nil "''2024''" "CHR ''5''", THEN conjunct2, THEN conjunct2,
            THEN conjunct2, THEN conjunct1]], rule disjI1, rule dg)
  have iiii: "\<not> isValidLabel ''IIII''" by code_simp
  have a: "areValidLabels [''xiv'', Nil]"
    using t [of "[''xiv'', Nil]" "''xiv''" "CHR ''5''", THEN conjunct1] xiv by simp
  have b: "\<not> areValidLabels [''IIII'', Nil]"
    using t [of "[''IIII'', Nil]" "''xiv''" "CHR ''5''", THEN conjunct1] iiii by simp
  have c: "areValidLabels [Nil, ''foo'']"
    using t [of "[Nil, ''foo'']" "''xiv''" "CHR ''5''", THEN conjunct1] by simp
  have e: "\<not> areValidLabels [''A'', Nil, Nil]"
    using t [of "[''A'', Nil, Nil]" "''xiv''" "CHR ''5''", THEN conjunct2, THEN conjunct1] by simp
  have f: "\<not> areValidLabels [Nil, Nil]"
    using t [of "[Nil, Nil]" "''xiv''" "CHR ''5''", THEN conjunct2, THEN conjunct2, THEN conjunct1]
    by simp
  have g: "upperChar CHR ''5'' = CHR ''5''"
    using t [of Nil "''xiv''" "CHR ''5''", THEN conjunct2, THEN conjunct2, THEN conjunct2,
        THEN conjunct2, THEN conjunct2]
    by simp
  show ?thesis using a b c e f d r xiv g by simp
qed

text \<open>
  C10 as the spec states it fails: in the list of a blank label and \<open>foo\<close> the first
  element is blank, which is no run of digits, no letter and nothing the reverse parse of
  Roman numerals accepts, and the list is accepted.
\<close>

theorem areValidLabels_blank_first_counterexample:
  "length (filter (\<lambda>label. label \<noteq> []) [Nil, ''foo'']) = 1 \<and> length [Nil, ''foo''] = 2 \<and>
   [Nil, ''foo''] ! 0 = Nil \<and> parseRoman Nil = None \<and> areValidLabels [Nil, ''foo'']"
  by code_simp

section \<open>Settings resolution: the resolved object\<close>

lemma objects_assign:
  "objects (assign t src h) a =
     (if a = t then objects h t ++ ownProperties h src else objects h a)"
  by (simp add: assign_def)

lemma objects_assign_target:
  "objects (assign t src h) t = objects h t ++ ownProperties h src"
  by (simp add: assign_def)

lemma fresh_assign: "fresh (assign t src h) = fresh h"
  by (simp add: assign_def)

lemma ownProperties_agree:
  assumes "allocated h v" "\<forall>a. a < fresh h \<longrightarrow> objects h1 a = objects h a"
  shows "ownProperties h1 v = ownProperties h v"
  using assms by (cases v) (simp_all add: ownProperties_def allocated_def)

lemma getProp_agree:
  assumes "s < fresh h" "\<forall>a. a < fresh h \<longrightarrow> objects h1 a = objects h a"
  shows "getProp h1 s key = getProp h s key"
  using assms by (simp add: getProp_def)

lemma assignAncestors_result:
  assumes "settings plugin < fresh h"
    and "list_all (\<lambda>ancestor. allocated h (getProp h (settings plugin) (path ancestor))) ancestors"
    and "\<forall>a. a \<noteq> fresh h \<longrightarrow> objects h1 a = objects h a"
  shows "objects (assignAncestors plugin (fresh h) ancestors h1) (fresh h) =
       foldl (++) (objects h1 (fresh h)) (map (storedFor h plugin) ancestors) \<and>
     (\<forall>a. a \<noteq> fresh h \<longrightarrow>
        objects (assignAncestors plugin (fresh h) ancestors h1) a = objects h a) \<and>
     fresh (assignAncestors plugin (fresh h) ancestors h1) = fresh h1"
  using assms(2,3)
proof (induction ancestors arbitrary: h1)
  case Nil
  then show ?case by simp
next
  case (Cons ancestor ancestors)
  let ?v = "getProp h (settings plugin) (path ancestor)"
  let ?h2 = "assign (fresh h) (getProp h1 (settings plugin) (path ancestor)) h1"
  have agree: "\<forall>a. a < fresh h \<longrightarrow> objects h1 a = objects h a"
    using Cons.prems(2) by simp
  have g: "getProp h1 (settings plugin) (path ancestor) = ?v"
    using assms(1) agree by (rule getProp_agree)
  have al: "allocated h ?v" using Cons.prems(1) by simp
  have own: "ownProperties h1 ?v = storedFor h plugin ancestor"
    unfolding storedFor_def using al agree by (rule ownProperties_agree)
  have frame: "\<forall>a. a \<noteq> fresh h \<longrightarrow> objects ?h2 a = objects h a"
    using Cons.prems(2) by (simp add: objects_assign)
  have rest: "list_all (\<lambda>ancestor. allocated h (getProp h (settings plugin) (path ancestor))) ancestors"
    using Cons.prems(1) by simp
  have top: "objects ?h2 (fresh h) = objects h1 (fresh h) ++ storedFor h plugin ancestor"
    by (simp add: objects_assign g own)
  show ?case
    using Cons.IH [OF rest frame] by (simp add: top fresh_assign)
qed

lemma resolveSettings_result:
  assumes "wellFormed h plugin currentFile localSettings"
  shows "fst (resolveSettings localSettings plugin currentFile h) = fresh h \<and>
     objects (snd (resolveSettings localSettings plugin currentFile h)) (fresh h) =
       foldl (++) (objects h DEFAULT_SETTINGS_ref)
         (map (storedFor h plugin) (getAncestors currentFile)) ++ ownProperties h localSettings"
proof -
  let ?h1 = "snd (newObject h)"
  let ?h2 = "assign (fresh h) (Ref DEFAULT_SETTINGS_ref) ?h1"
  let ?h3 = "assignAncestors plugin (fresh h) (getAncestors currentFile) ?h2"
  have wf: "DEFAULT_SETTINGS_ref < fresh h" "settings plugin < fresh h"
    "list_all (\<lambda>ancestor. allocated h (getProp h (settings plugin) (path ancestor)))
        (getAncestors currentFile)" "allocated h localSettings"
    using assms by (simp_all add: wellFormed_def)
  have h2r: "objects ?h2 (fresh h) = objects h DEFAULT_SETTINGS_ref"
    using wf(1) by (simp add: objects_assign newObject_def ownProperties_def)
  have h2f: "\<forall>a. a \<noteq> fresh h \<longrightarrow> objects ?h2 a = objects h a"
    by (simp add: objects_assign newObject_def)
  note h3 = assignAncestors_result [OF wf(2) wf(3) h2f]
  have agree3: "\<forall>a. a < fresh h \<longrightarrow> objects ?h3 a = objects h a"
    using h3 by simp
  have own: "ownProperties ?h3 localSettings = ownProperties h localSettings"
    using wf(4) agree3 by (rule ownProperties_agree)
  have r: "resolveSettings localSettings plugin currentFile h =
      (fresh h, assign (fresh h) localSettings ?h3)"
    by (simp add: resolveSettings_def newObject_def Let_def)
  have top: "objects ?h3 (fresh h) =
      foldl (++) (objects h DEFAULT_SETTINGS_ref)
        (map (storedFor h plugin) (getAncestors currentFile))"
    using h3 by (simp only: h2r)
  have "objects (assign (fresh h) localSettings ?h3) (fresh h) =
      objects ?h3 (fresh h) ++ ownProperties ?h3 localSettings"
    by (rule objects_assign_target)
  then show ?thesis
    by (simp only: r fst_conv snd_conv top own)
qed

lemma resolveSettings_frame:
  "fst (resolveSettings localSettings plugin currentFile h) = fresh h \<and>
   fresh (snd (resolveSettings localSettings plugin currentFile h)) = Suc (fresh h) \<and>
   (\<forall>a. a \<noteq> fresh h \<longrightarrow>
      objects (snd (resolveSettings localSettings plugin currentFile h)) a = objects h a)"
proof -
  have anc: "(\<forall>a. a \<noteq> r \<longrightarrow> objects (assignAncestors plugin r ancestors h1) a = objects h1 a) \<and>
      fresh (assignAncestors plugin r ancestors h1) = fresh h1" for r ancestors h1
    by (induction ancestors arbitrary: h1) (simp_all add: objects_assign fresh_assign)
  have r: "resolveSettings localSettings plugin currentFile h =
      (fresh h, assign (fresh h) localSettings
         (assignAncestors plugin (fresh h) (getAncestors currentFile)
            (assign (fresh h) (Ref DEFAULT_SETTINGS_ref) (snd (newObject h)))))"
    by (simp add: resolveSettings_def newObject_def Let_def)
  show ?thesis
    by (simp add: r objects_assign fresh_assign anc) (simp add: newObject_def)
qed

lemma foldl_override_none:
  "\<forall>e\<in>set es. e f = None \<Longrightarrow> foldl (++) base es f = base f"
proof (induction es arbitrary: base)
  case Nil
  then show ?case by simp
next
  case (Cons e es)
  have "foldl (++) (base ++ e) es f = (base ++ e) f"
    using Cons.prems by (intro Cons.IH) simp
  moreover have "(base ++ e) f = base f"
    using Cons.prems by (simp add: map_add_def)
  ultimately show ?case by simp
qed

lemma foldl_override_last:
  "i < length es \<Longrightarrow> (es ! i) f = Some v \<Longrightarrow>
   \<forall>j. i < j \<and> j < length es \<longrightarrow> (es ! j) f = None \<Longrightarrow>
   foldl (++) base es f = Some v"
proof (induction es arbitrary: base i)
  case Nil
  then show ?case by simp
next
  case (Cons e es)
  show ?case
  proof (cases i)
    case 0
    have "\<forall>e'\<in>set es. e' f = None"
    proof
      fix e' assume "e' \<in> set es"
      then obtain j where j: "j < length es" "es ! j = e'" by (auto simp: in_set_conv_nth)
      then have "i < Suc j \<and> Suc j < length (e # es)" using 0 by simp
      then have "((e # es) ! Suc j) f = None" by (rule Cons.prems(3) [rule_format])
      then show "e' f = None" using j by simp
    qed
    then have "foldl (++) (base ++ e) es f = (base ++ e) f" by (rule foldl_override_none)
    moreover have "(base ++ e) f = Some v"
      using Cons.prems(2) 0 by (simp add: map_add_Some_iff)
    ultimately show ?thesis by simp
  next
    case (Suc k)
    have 1: "k < length es" using Cons.prems(1) Suc by simp
    have 2: "(es ! k) f = Some v" using Cons.prems(2) Suc by simp
    have 3: "\<forall>j. k < j \<and> j < length es \<longrightarrow> (es ! j) f = None"
    proof (intro allI impI)
      fix j assume "k < j \<and> j < length es"
      then have "i < Suc j \<and> Suc j < length (e # es)" using Suc by simp
      then have "((e # es) ! Suc j) f = None" by (rule Cons.prems(3) [rule_format])
      then show "(es ! j) f = None" by simp
    qed
    show ?thesis using Cons.IH [OF 1 2 3] by simp
  qed
qed

lemma foldl_override_cases:
  "foldl (++) base es f = Some v \<Longrightarrow> base f = Some v \<or> (\<exists>e\<in>set es. e f = Some v)"
proof (induction es arbitrary: base)
  case Nil
  then show ?case by simp
next
  case (Cons e es)
  from Cons.prems have "foldl (++) (base ++ e) es f = Some v" by simp
  then have "(base ++ e) f = Some v \<or> (\<exists>e'\<in>set es. e' f = Some v)" by (rule Cons.IH)
  then show ?case
  proof
    assume "(base ++ e) f = Some v"
    then have "e f = Some v \<or> base f = Some v" by (auto simp: map_add_Some_iff)
    then show ?thesis by auto
  next
    assume "\<exists>e'\<in>set es. e' f = Some v"
    then show ?thesis by auto
  qed
qed

lemma foldl_override_dom: "f \<in> dom base \<Longrightarrow> f \<in> dom (foldl (++) base es)"
proof (induction es arbitrary: base)
  case Nil
  then show ?case by simp
next
  case (Cons e es)
  have "f \<in> dom (base ++ e)" using Cons.prems by simp
  then have "f \<in> dom (foldl (++) (base ++ e) es)" by (rule Cons.IH)
  then show ?case by simp
qed

lemma ancestorsLoop_chain:
  "\<not> (kind file = TFolder \<and> isRoot file) \<Longrightarrow>
   ancestorsLoop file (Some a) acc = acc @ chain a"
proof (induction a arbitrary: acc)
  case (TAbstractFile k p b r par)
  let ?a = "TAbstractFile k p b r par"
  have step: "ancestorsLoop file (Some ?a) acc = ancestorsLoop file par (acc @ [?a])"
    using TAbstractFile.prems by (simp only: ancestorsLoop.simps if_False)
  show ?case
  proof (cases par)
    case None
    have "ancestorsLoop file None (acc @ [?a]) = acc @ [?a]" by simp
    then show ?thesis unfolding step None by simp
  next
    case (Some g)
    have "ancestorsLoop file (Some g) (acc @ [?a]) = (acc @ [?a]) @ chain g"
      using TAbstractFile.IH [of g] TAbstractFile.prems Some by simp
    then have "ancestorsLoop file par (acc @ [?a]) = acc @ chain ?a"
      using Some by simp
    then show ?thesis by (simp only: step)
  qed
qed

lemma getAncestors_chain:
  "getAncestors file =
     (if kind file = TFolder \<and> isRoot file then [file] else rev (chain file))"
proof (cases "kind file = TFolder \<and> isRoot file")
  case True
  then show ?thesis by (cases "file") (simp add: getAncestors_def)
next
  case False
  then show ?thesis
    by (simp only: getAncestors_def ancestorsLoop_chain [OF False] if_not_P [OF False] append_Nil
        if_False)
qed

subsection \<open>The small vault\<close>

lemma vault_ancestors:
  "getAncestors noteA = [vaultRoot, folderCh1, noteA]"
  "getAncestors noteB = [vaultRoot, folderCh1, noteB]"
  by (simp_all add: getAncestors_def noteA_def noteB_def folderCh1_def vaultRoot_def)

lemma vault_paths:
  "path vaultRoot = ''/''" "path folderCh1 = ''ch1''" "path noteA = ''ch1/a.md''"
  "path noteB = ''ch1/b.md''"
  by (simp_all add: noteA_def noteB_def folderCh1_def vaultRoot_def)

lemma vault_stored:
  "storedFor vaultHeap vaultPlugin vaultRoot =
     [''numberStyle'' \<mapsto> Str ''roman'', ''titleSuffix'' \<mapsto> Str '':'']"
  "storedFor vaultHeap vaultPlugin folderCh1 = [''numberStyle'' \<mapsto> Str ''Alph'']"
  "storedFor vaultHeap vaultPlugin noteA = Map.empty"
  "storedFor vaultHeap vaultPlugin noteB = [''lang'' \<mapsto> Undefined]"
  by (simp_all add: storedFor_def vault_paths getProp_def ownProperties_def vaultHeap_def
      vaultPlugin_def vaultObjects_def)

lemma vault_local:
  "ownProperties vaultHeap (Ref 5) =
     [''type'' \<mapsto> Str ''thm'', ''number'' \<mapsto> Str ''auto'', ''titleSuffix'' \<mapsto> Str []]"
  "ownProperties vaultHeap Undefined = Map.empty"
  by (simp_all add: ownProperties_def vaultHeap_def vaultObjects_def)

lemma vault_wellFormed:
  "wellFormed vaultHeap vaultPlugin noteA (Ref 5)"
  "wellFormed vaultHeap vaultPlugin noteB Undefined"
  by (simp_all add: wellFormed_def vault_ancestors vault_paths allocated_def getProp_def
      vaultHeap_def vaultPlugin_def vaultObjects_def DEFAULT_SETTINGS_ref_def)

lemma vault_defaults: "objects vaultHeap DEFAULT_SETTINGS_ref = DEFAULT_SETTINGS ''en'' 1"
  by (simp add: vaultHeap_def vaultObjects_def DEFAULT_SETTINGS_ref_def)

subsection \<open>Precedence\<close>

text \<open>
  C6. In a well-formed heap, for every file and every field \<open>f\<close>: the ancestors are the
  chain of the file from the root down to the file itself (the file alone when it is the
  root folder); a value the local settings hold for \<open>f\<close> is the resolved value; otherwise
  the value stored for \<open>f\<close> at an ancestor is the resolved value when no ancestor closer to
  the file stores \<open>f\<close>; and when neither the local settings nor any ancestor hold \<open>f\<close>, the
  resolved value is the one of the global defaults.
\<close>

theorem resolveSettings_override:
  assumes "wellFormed h plugin currentFile localSettings"
  shows "getAncestors currentFile =
       (if kind currentFile = TFolder \<and> isRoot currentFile then [currentFile]
        else rev (chain currentFile)) \<and>
     (ownProperties h localSettings f = Some v \<longrightarrow>
        objects (snd (resolveSettings localSettings plugin currentFile h))
          (fst (resolveSettings localSettings plugin currentFile h)) f = Some v) \<and>
     (ownProperties h localSettings f = None \<and> i < length (getAncestors currentFile) \<and>
      storedFor h plugin (getAncestors currentFile ! i) f = Some v \<and>
      (\<forall>j. i < j \<and> j < length (getAncestors currentFile) \<longrightarrow>
           storedFor h plugin (getAncestors currentFile ! j) f = None) \<longrightarrow>
        objects (snd (resolveSettings localSettings plugin currentFile h))
          (fst (resolveSettings localSettings plugin currentFile h)) f = Some v) \<and>
     (ownProperties h localSettings f = None \<and>
      (\<forall>ancestor\<in>set (getAncestors currentFile). storedFor h plugin ancestor f = None) \<longrightarrow>
        objects (snd (resolveSettings localSettings plugin currentFile h))
          (fst (resolveSettings localSettings plugin currentFile h)) f =
        objects h DEFAULT_SETTINGS_ref f)"
proof -
  let ?es = "map (storedFor h plugin) (getAncestors currentFile)"
  let ?R = "objects (snd (resolveSettings localSettings plugin currentFile h))
          (fst (resolveSettings localSettings plugin currentFile h))"
  have R: "?R = foldl (++) (objects h DEFAULT_SETTINGS_ref) ?es ++ ownProperties h localSettings"
    using resolveSettings_result [OF assms] by simp
  have a: "?R f = Some v" if "ownProperties h localSettings f = Some v"
    using that by (simp add: R map_add_Some_iff)
  have b: "?R f = Some v"
    if "ownProperties h localSettings f = None" "i < length (getAncestors currentFile)"
      "storedFor h plugin (getAncestors currentFile ! i) f = Some v"
      "\<forall>j. i < j \<and> j < length (getAncestors currentFile) \<longrightarrow>
           storedFor h plugin (getAncestors currentFile ! j) f = None"
  proof -
    have 1: "i < length ?es" using that(2) by simp
    have 2: "(?es ! i) f = Some v" using that(2,3) by simp
    have 3: "\<forall>j. i < j \<and> j < length ?es \<longrightarrow> (?es ! j) f = None" using that(4) by simp
    have "foldl (++) (objects h DEFAULT_SETTINGS_ref) ?es f = Some v"
      using 1 2 3 by (rule foldl_override_last)
    then show ?thesis using that(1) by (simp add: R map_add_def)
  qed
  have c: "?R f = objects h DEFAULT_SETTINGS_ref f"
    if "ownProperties h localSettings f = None"
      "\<forall>ancestor\<in>set (getAncestors currentFile). storedFor h plugin ancestor f = None"
  proof -
    have "\<forall>e\<in>set ?es. e f = None" using that(2) by simp
    then have "foldl (++) (objects h DEFAULT_SETTINGS_ref) ?es f = objects h DEFAULT_SETTINGS_ref f"
      by (rule foldl_override_none)
    then show ?thesis using that(1) by (simp add: R map_add_def)
  qed
  show ?thesis using a b c getAncestors_chain [of currentFile] by blast
qed

theorem resolveSettings_override_witness:
  "wellFormed vaultHeap vaultPlugin noteA (Ref 5) \<and>
   getAncestors noteA = [vaultRoot, folderCh1, noteA] \<and>
   ownProperties vaultHeap (Ref 5) ''titleSuffix'' = Some (Str []) \<and>
   storedFor vaultHeap vaultPlugin vaultRoot ''titleSuffix'' = Some (Str '':'') \<and>
   objects (snd (resolveSettings (Ref 5) vaultPlugin noteA vaultHeap))
     (fst (resolveSettings (Ref 5) vaultPlugin noteA vaultHeap)) ''titleSuffix'' = Some (Str []) \<and>
   ownProperties vaultHeap (Ref 5) ''numberStyle'' = None \<and>
   storedFor vaultHeap vaultPlugin vaultRoot ''numberStyle'' = Some (Str ''roman'') \<and>
   storedFor vaultHeap vaultPlugin folderCh1 ''numberStyle'' = Some (Str ''Alph'') \<and>
   storedFor vaultHeap vaultPlugin noteA ''numberStyle'' = None \<and>
   objects (snd (resolveSettings (Ref 5) vaultPlugin noteA vaultHeap))
     (fst (resolveSettings (Ref 5) vaultPlugin noteA vaultHeap)) ''numberStyle'' =
     Some (Str ''Alph'') \<and>
   objects (snd (resolveSettings (Ref 5) vaultPlugin noteA vaultHeap))
     (fst (resolveSettings (Ref 5) vaultPlugin noteA vaultHeap)) ''lang'' = Some (Str ''en'')"
proof -
  let ?R = "objects (snd (resolveSettings (Ref 5) vaultPlugin noteA vaultHeap))
     (fst (resolveSettings (Ref 5) vaultPlugin noteA vaultHeap))"
  note wf = vault_wellFormed(1)
  have a: "?R ''titleSuffix'' = Some (Str [])"
    using resolveSettings_override [OF wf, of "''titleSuffix''" "Str []"]
    by (simp add: vault_local)
  have later: "\<forall>j. 1 < j \<and> j < length (getAncestors noteA) \<longrightarrow>
      storedFor vaultHeap vaultPlugin (getAncestors noteA ! j) ''numberStyle'' = None"
  proof (intro allI impI)
    fix j assume "1 < j \<and> j < length (getAncestors noteA)"
    then have "j = 2" by (simp add: vault_ancestors)
    then show "storedFor vaultHeap vaultPlugin (getAncestors noteA ! j) ''numberStyle'' = None"
      by (simp add: vault_ancestors vault_stored)
  qed
  have b: "?R ''numberStyle'' = Some (Str ''Alph'')"
    using resolveSettings_override [OF wf, of "''numberStyle''" "Str ''Alph''" 1] later
    by (simp add: vault_local vault_ancestors vault_stored)
  have c: "?R ''lang'' = Some (Str ''en'')"
    using resolveSettings_override [OF wf, of "''lang''"]
    by (simp add: vault_local vault_ancestors vault_stored vault_defaults DEFAULT_SETTINGS_def)
  show ?thesis
    using a b c wf by (simp add: vault_ancestors vault_stored vault_local)
qed

subsection \<open>Every field is there, but not always defined\<close>

lemma DEFAULT_SETTINGS_defined:
  "\<forall>f\<in>set MathContextSettings.
     f \<in> dom (DEFAULT_SETTINGS lang ren) \<and> DEFAULT_SETTINGS lang ren f \<noteq> Some Undefined"
  by (simp add: MathContextSettings_def DEFAULT_SETTINGS_def)

lemma resolveSettings_fields_present:
  assumes "wellFormed h plugin currentFile localSettings"
    and "objects h DEFAULT_SETTINGS_ref = DEFAULT_SETTINGS lang ren"
    and "f \<in> set MathContextSettings"
  shows "f \<in> dom (objects (snd (resolveSettings localSettings plugin currentFile h))
               (fst (resolveSettings localSettings plugin currentFile h)))"
proof -
  let ?es = "map (storedFor h plugin) (getAncestors currentFile)"
  let ?D = "DEFAULT_SETTINGS lang ren"
  let ?R = "objects (snd (resolveSettings localSettings plugin currentFile h))
          (fst (resolveSettings localSettings plugin currentFile h))"
  have R: "?R = foldl (++) ?D ?es ++ ownProperties h localSettings"
    using resolveSettings_result [OF assms(1)] assms(2) by simp
  have "f \<in> dom ?D" using DEFAULT_SETTINGS_defined assms(3) by blast
  then have "f \<in> dom (foldl (++) ?D ?es)" by (rule foldl_override_dom)
  then show ?thesis by (simp add: R)
qed

text \<open>
  C7. The code breaks it. \<^verbatim>\<open>Object.assign\<close> copies a property that holds \<open>undefined\<close> like any
  other, so settings stored with such a property put \<open>undefined\<close> over the default: here the
  entry of the store for \<^verbatim>\<open>ch1/b.md\<close> holds \<open>lang\<close> with the value \<open>undefined\<close>, and in the
  resolved settings of that note \<open>lang\<close> is undefined, although the function is declared to
  return \<^verbatim>\<open>Required<MathContextSettings>\<close>.
\<close>

theorem resolveSettings_undefined_field:
  "wellFormed vaultHeap vaultPlugin noteB Undefined \<and>
   objects vaultHeap DEFAULT_SETTINGS_ref = DEFAULT_SETTINGS ''en'' 1 \<and>
   getProp vaultHeap (settings vaultPlugin) (path noteB) = Ref 6 \<and>
   objects vaultHeap 6 ''lang'' = Some Undefined \<and>
   ''lang'' \<in> set MathContextSettings \<and>
   objects (snd (resolveSettings Undefined vaultPlugin noteB vaultHeap))
     (fst (resolveSettings Undefined vaultPlugin noteB vaultHeap)) ''lang'' = Some Undefined"
proof -
  have "objects (snd (resolveSettings Undefined vaultPlugin noteB vaultHeap))
     (fst (resolveSettings Undefined vaultPlugin noteB vaultHeap)) =
     foldl (++) (objects vaultHeap DEFAULT_SETTINGS_ref)
       (map (storedFor vaultHeap vaultPlugin) (getAncestors noteB)) ++
     ownProperties vaultHeap Undefined"
    using resolveSettings_result [OF vault_wellFormed(2)] by simp
  then have "objects (snd (resolveSettings Undefined vaultPlugin noteB vaultHeap))
     (fst (resolveSettings Undefined vaultPlugin noteB vaultHeap)) ''lang'' = Some Undefined"
    by (simp add: vault_ancestors vault_stored vault_local)
  moreover have "getProp vaultHeap (settings vaultPlugin) (path noteB) = Ref 6"
    by (simp add: getProp_def vault_paths vaultHeap_def vaultPlugin_def vaultObjects_def)
  moreover have "objects vaultHeap 6 ''lang'' = Some Undefined"
    by (simp add: vaultHeap_def vaultObjects_def)
  ultimately show ?thesis
    using vault_wellFormed(2) vault_defaults by (simp add: MathContextSettings_def)
qed

subsection \<open>Nothing is overwritten\<close>

text \<open>
  C8. \<^verbatim>\<open>resolveSettings\<close> returns a newly allocated object: it is none of the objects that
  existed before the call (the defaults, the store, its entries and the local settings are
  among them), every object that existed before is left as it was, and a second call
  returns yet another object. (The copy is shallow: the \<open>rename\<close> object of the defaults is
  shared with the result, not written.)
\<close>

theorem resolveSettings_new_object:
  "fst (resolveSettings localSettings plugin currentFile h) = fresh h \<and>
   fresh (snd (resolveSettings localSettings plugin currentFile h)) = Suc (fresh h) \<and>
   (\<forall>a. a < fresh h \<longrightarrow>
      a \<noteq> fst (resolveSettings localSettings plugin currentFile h) \<and>
      objects (snd (resolveSettings localSettings plugin currentFile h)) a = objects h a) \<and>
   fst (resolveSettings localSettings' plugin' currentFile'
          (snd (resolveSettings localSettings plugin currentFile h))) \<noteq>
     fst (resolveSettings localSettings plugin currentFile h)"
proof -
  note 1 = resolveSettings_frame [of localSettings plugin currentFile h]
  note 2 = resolveSettings_frame [of localSettings' plugin' currentFile'
      "snd (resolveSettings localSettings plugin currentFile h)"]
  show ?thesis using 1 2 by auto
qed

theorem resolveSettings_new_object_witness:
  "(0::nat) < fresh vaultHeap \<and> (5::nat) < fresh vaultHeap \<and>
   fst (resolveSettings (Ref 5) vaultPlugin noteA vaultHeap) = 7 \<and>
   fst (resolveSettings (Ref 5) vaultPlugin noteA vaultHeap) \<noteq> 0 \<and>
   fst (resolveSettings (Ref 5) vaultPlugin noteA vaultHeap) \<noteq> 5 \<and>
   objects (snd (resolveSettings (Ref 5) vaultPlugin noteA vaultHeap)) 0 =
     DEFAULT_SETTINGS ''en'' 1 \<and>
   objects (snd (resolveSettings (Ref 5) vaultPlugin noteA vaultHeap)) 5 = objects vaultHeap 5"
proof -
  have f: "fresh vaultHeap = 7" by (simp add: vaultHeap_def)
  have d: "objects vaultHeap 0 = DEFAULT_SETTINGS ''en'' 1"
    by (simp add: vaultHeap_def vaultObjects_def)
  note t = resolveSettings_new_object [of "Ref 5" vaultPlugin noteA vaultHeap]
  note old = t [THEN conjunct2, THEN conjunct2, THEN conjunct1, rule_format]
  have l0: "(0::nat) < fresh vaultHeap" and l5: "(5::nat) < fresh vaultHeap"
    by (simp_all add: f)
  note 0 = old [OF l0] and 5 = old [OF l5]
  show ?thesis using t 0 5 f d by simp
qed

section \<open>A malformed callout\<close>

lemma scanLoop_skip:
  assumes "readTheoremCalloutSettingsAndTitle parse line = Inl e"
  shows "scanLoop parse typeOf (pre @ (k, line) # post) items =
     scanLoop parse typeOf (pre @ post) items"
proof (induction pre arbitrary: items)
  case Nil
  then show ?case using assms by simp
next
  case (Cons s pre)
  then show ?case by (simp split: sum.splits option.splits prod.splits)
qed

text \<open>
  C4. A callout header whose settings blob is not valid JSON makes the reader fail: the
  \<open>SyntaxError\<close> of \<^verbatim>\<open>JSON.parse\<close> leaves \<^verbatim>\<open>readTheoremCalloutSettingsAndTitle\<close> and
  \<^verbatim>\<open>readTheoremCalloutSettings\<close>. The scan takes that as the failure of one item: the index
  of the note is the index of the note without that section, so the section is not indexed
  and the sections after it are indexed as if it were not there.
\<close>

theorem malformed_callout_skipped:
  assumes "matchTheoremCallout line = Some (blob, rest)" and "parse blob = None"
  shows "readTheoremCalloutSettingsAndTitle parse line = Inl SyntaxError \<and>
     readTheoremCalloutSettings parse line = Inl SyntaxError \<and>
     scanCallouts parse typeOf (pre @ (k, line) # post) = scanCallouts parse typeOf (pre @ post)"
proof -
  have r: "readTheoremCalloutSettingsAndTitle parse line = Inl SyntaxError"
    using assms by (simp add: readTheoremCalloutSettingsAndTitle_def)
  then show ?thesis
    by (simp add: readTheoremCalloutSettings_def scanCallouts_def scanLoop_skip)
qed

theorem malformed_callout_skipped_witness:
  "matchTheoremCallout ''> [!math|{broken] B'' = Some (''{broken'', '' B'') \<and>
   (\<lambda>b. if b = ''{broken'' then None else Some b) ''{broken'' = None \<and>
   readTheoremCalloutSettingsAndTitle (\<lambda>b. if b = ''{broken'' then None else Some b)
     ''> [!math|{broken] B'' = Inl SyntaxError \<and>
   scanCallouts (\<lambda>b. if b = ''{broken'' then None else Some b) id
     [(0, ''> [!math|thm] A''), (4, ''> [!math|{broken] B''), (9, ''> [!math|thm] C'')] =
     [\<lparr>item_line = 0, item_settings = ''thm'', item_title = ''A'', item_index = 0\<rparr>,
      \<lparr>item_line = 9, item_settings = ''thm'', item_title = ''C'', item_index = 1\<rparr>]"
proof -
  let ?parse = "\<lambda>b. if b = ''{broken'' then None else Some b"
  have m: "matchTheoremCallout ''> [!math|{broken] B'' = Some (''{broken'', '' B'')"
    by code_simp
  have p: "?parse ''{broken'' = None" by simp
  have s: "scanCallouts ?parse id [(0, ''> [!math|thm] A''), (9, ''> [!math|thm] C'')] =
     [\<lparr>item_line = 0, item_settings = ''thm'', item_title = ''A'', item_index = 0\<rparr>,
      \<lparr>item_line = 9, item_settings = ''thm'', item_title = ''C'', item_index = 1\<rparr>]"
    by code_simp
  show ?thesis
    using malformed_callout_skipped [where line = "''> [!math|{broken] B''" and blob = "''{broken''"
        and rest = "'' B''" and parse = ?parse and typeOf = id
        and pre = "[(0, ''> [!math|thm] A'')]" and k = 4 and post = "[(9, ''> [!math|thm] C'')]"]
      m s
    by simp
qed

section \<open>The title of a callout that is not indexed yet\<close>

text \<open>
  C9, as the code has it. For resolved settings whose number is \<^verbatim>\<open>auto\<close>, whose \<^verbatim>\<open>_index\<close> is
  absent and whose profile is one of the plugin's profiles, \<^verbatim>\<open>formatTitleWithoutSubtitle\<close>
  returns the environment title read from that profile, with no numeral appended, and
  \<^verbatim>\<open>formatTitle\<close> returns what it returns for the same settings without a number: the title
  followed by the subtitle and the suffix, when there are any. No error is raised.
\<close>

theorem formatTitle_auto_without_index:
  assumes "number s = ''auto''" and "callout_index s = None"
    and "profiles plugin (profile s) = Some p"
  shows "formatTitleWithoutSubtitle nativeText plugin file s =
       Inr (readProperty (theorem_names p) (env_type s)) \<and>
     formatTitle nativeText plugin file s noTitleSuffix =
       formatTitle nativeText plugin file (s\<lparr>number := []\<rparr>) noTitleSuffix \<and>
     formatTitle nativeText plugin file s noTitleSuffix =
       Inr (let t0 = readProperty (theorem_names p) (env_type s);
                t1 = (case title s of
                        None \<Rightarrow> t0
                      | Some sub \<Rightarrow>
                          if sub \<noteq> [] then Own (toStr nativeText t0 @ '' ('' @ sub @ '')'')
                          else t0)
            in if \<not> noTitleSuffix \<and> titleSuffix s \<noteq> []
               then Own (toStr nativeText t1 @ titleSuffix s) else t1)"
  using assms
  by (simp add: formatTitleWithoutSubtitle_def formatTitle_def formatTheoremCalloutType_def
      Let_def)

theorem formatTitle_auto_without_index_witness:
  "number calloutAuto = ''auto'' \<and> callout_index calloutAuto = None \<and>
   profiles vaultPlugin (profile calloutAuto) =
     Some \<lparr>theorem_names = [''thm'' \<mapsto> ''Theorem'']\<rparr> \<and>
   formatTitleWithoutSubtitle v8Text vaultPlugin noteA calloutAuto = Inr (Own ''Theorem'') \<and>
   formatTitle v8Text vaultPlugin noteA calloutAuto False = Inr (Own ''Theorem (Euler).'')"
proof -
  have n: "number calloutAuto = ''auto''" and i: "callout_index calloutAuto = None"
    by (simp_all add: calloutAuto_def)
  have p: "profiles vaultPlugin (profile calloutAuto) =
      Some \<lparr>theorem_names = [''thm'' \<mapsto> ''Theorem'']\<rparr>"
    by (simp add: calloutAuto_def vaultPlugin_def)
  note t = formatTitle_auto_without_index [OF n i p, of v8Text noteA False]
  have e: "readProperty (theorem_names \<lparr>theorem_names = [''thm'' \<mapsto> ''Theorem'']\<rparr>)
      (env_type calloutAuto) = Own ''Theorem''"
    by (simp add: calloutAuto_def readProperty_def)
  have a: "formatTitleWithoutSubtitle v8Text vaultPlugin noteA calloutAuto = Inr (Own ''Theorem'')"
    using t [THEN conjunct1] by (simp only: e)
  have b: "formatTitle v8Text vaultPlugin noteA calloutAuto False = Inr (Own ''Theorem (Euler).'')"
    using t [THEN conjunct2, THEN conjunct2]
    by (simp only: e) (simp add: calloutAuto_def toStr_def)
  show ?thesis using n i p a b by simp
qed

text \<open>
  C9 as the spec states it fails: with a profile that is not registered the look-up of the
  environment title throws a \<open>TypeError\<close>, also when the number is \<^verbatim>\<open>auto\<close> and the index is
  absent.
\<close>

theorem formatTitle_unregistered_profile_counterexample:
  "number (calloutAuto\<lparr>profile := ''Deutsch''\<rparr>) = ''auto'' \<and>
   callout_index (calloutAuto\<lparr>profile := ''Deutsch''\<rparr>) = None \<and>
   formatTitleWithoutSubtitle v8Text vaultPlugin noteA (calloutAuto\<lparr>profile := ''Deutsch''\<rparr>) =
     Inl TypeError \<and>
   formatTitle v8Text vaultPlugin noteA (calloutAuto\<lparr>profile := ''Deutsch''\<rparr>) False =
     Inl TypeError"
  by (simp add: formatTitleWithoutSubtitle_def formatTitle_def formatTheoremCalloutType_def
      calloutAuto_def vaultPlugin_def)

text \<open>
  The environment type is read as a property name: for the type \<^verbatim>\<open>constructor\<close> the title
  is the inherited member, which is printed as the engine prints it.
\<close>

lemma formatTitle_inherited_type:
  "formatTitleWithoutSubtitle v8Text vaultPlugin noteA (calloutAuto\<lparr>env_type := ''constructor''\<rparr>) =
     Inr (Inherited ''constructor'') \<and>
   formatTitle v8Text vaultPlugin noteA (calloutAuto\<lparr>env_type := ''constructor''\<rparr>) False =
     Inr (Own ''function Object() { [native code] } (Euler).'')"
  by (simp add: formatTitleWithoutSubtitle_def formatTitle_def formatTheoremCalloutType_def
      calloutAuto_def vaultPlugin_def readProperty_def OBJECT_PROTOTYPE_def toStr_def v8Text_def)

end
